theory Spec2Isabelle
  imports Main "HOL-Library.Word"
begin

unbundle bit_operations_syntax

section \<open>ESP32 mesh networking: the engine of mesh\_network.cpp\<close>

text \<open>
  A shallow embedding of \<^verbatim>\<open>device-firmware/src/mesh_network.cpp\<close>.

  \<^item> The file-scope globals are the fields of the record \<open>mesh_state\<close>; every function
    takes the state and returns the new one.
  \<^item> \<^verbatim>\<open>uint8_t\<close>, \<^verbatim>\<open>uint16_t\<close> and \<^verbatim>\<open>uint32_t\<close> are words of that width, so \<open>+\<close>
    and \<open>-\<close> wrap as in C; \<^verbatim>\<open>int8_t\<close> is an 8-bit word read by \<open>sint\<close>; \<^verbatim>\<open>int\<close> is
    \<open>int\<close> (the counters never leave 0..20, the loop indices never leave 0..count).
  \<^item> The arrays \<^verbatim>\<open>peers\<close> and \<^verbatim>\<open>routingTable\<close> are lists, read by \<open>!\<close> and written by
    list update, beside their counters \<^verbatim>\<open>peerCount\<close> and \<^verbatim>\<open>routeCount\<close>, as in the source.
  \<^item> A MAC address is a list of bytes; the source reads one through a pointer with
    \<^verbatim>\<open>memcmp(a, b, 6)\<close> and \<^verbatim>\<open>memcpy(dst, src, 6)\<close>, that is, by its first six bytes.
  \<^item> \<^verbatim>\<open>millis()\<close> is the parameter \<open>now\<close>: a handler runs within one reading of the clock.
  \<^item> What a function hands to the link driver (\<^verbatim>\<open>esp_now_send\<close>) or to the application
    callback is returned as a list of events, in the order of the calls. The driver's own
    registry of peers (\<^verbatim>\<open>esp_now_get_peer\<close>, \<^verbatim>\<open>esp_now_add_peer\<close>) and the serial log
    are outside the engine and are not modelled.
\<close>

subsection \<open>Configuration\<close>

type_synonym u8 = "8 word"
type_synonym i8 = "8 word"
type_synonym u16 = "16 word"
type_synonym u32 = "32 word"
type_synonym mac = "u8 list"

definition MAX_PEERS :: int where
  "MAX_PEERS = 20"

definition HEARTBEAT_INTERVAL :: u32 where
  "HEARTBEAT_INTERVAL = 30000"

definition PEER_TIMEOUT :: u32 where
  "PEER_TIMEOUT = 120000"

text \<open>\<^verbatim>\<open>MAX_HOP_COUNT\<close> and \<^verbatim>\<open>MAX_DATA_SIZE\<close> are macros of mesh\_network.h; the handlers of
  mesh\_network.cpp write the literals 5 and 200.\<close>

definition MAX_HOP_COUNT :: u8 where
  "MAX_HOP_COUNT = 5"

definition MAX_DATA_SIZE :: nat where
  "MAX_DATA_SIZE = 200"

subsection \<open>Message types\<close>

definition MSG_DISCOVERY :: u8 where
  "MSG_DISCOVERY = 1"

definition MSG_HEARTBEAT :: u8 where
  "MSG_HEARTBEAT = 2"

definition MSG_DATA :: u8 where
  "MSG_DATA = 3"

definition MSG_ROUTE_REQUEST :: u8 where
  "MSG_ROUTE_REQUEST = 4"

definition MSG_ROUTE_REPLY :: u8 where
  "MSG_ROUTE_REPLY = 5"

definition MSG_ACK :: u8 where
  "MSG_ACK = 6"

subsection \<open>Structures\<close>

record MeshPeer =
  mac :: mac
  rssi :: i8
  lastSeen :: u32
  hopCount :: u8
  isGateway :: bool
  isActive :: bool

text \<open>The field \<open>data\<close> holds the bytes of \<^verbatim>\<open>data[200]\<close> from index 0 on that have been
  written; a frame built on the stack has the bytes it assigned, a received frame the
  whole array.\<close>

record MeshMessage =
  type :: u8
  srcMac :: mac
  dstMac :: mac
  hopCount :: u8
  sequenceNum :: u16
  dataLen :: u16
  data :: "u8 list"

record RouteEntry =
  destination :: mac
  nextHop :: mac
  hopCount :: u8
  lastUpdated :: u32

subsection \<open>Global variables\<close>

text \<open>\<open>onDataReceived\<close> is the callback pointer: \<open>None\<close> is \<^verbatim>\<open>nullptr\<close>, \<open>Some a\<close> the
  function at address \<open>a\<close>. \<^verbatim>\<open>deviceId\<close> is written once by \<^verbatim>\<open>initMesh\<close> and only
  printed; it is left out.\<close>

record mesh_state =
  myMac :: mac
  peers :: "MeshPeer list"
  peerCount :: int
  routingTable :: "RouteEntry list"
  routeCount :: int
  sequenceNumber :: u16
  isGateway :: bool
  lastHeartbeat :: u32
  onDataReceived :: "nat option"

text \<open>An event is one call that leaves the engine: \<^verbatim>\<open>esp_now_send(addr, msg, msgLen)\<close> or
  \<^verbatim>\<open>onDataReceived(src, data, len)\<close>.\<close>

datatype event =
  Send mac MeshMessage u16
| Deliver nat mac "u8 list" u16

text \<open>The header's \<^verbatim>\<open>MAC_EQUAL\<close> and \<^verbatim>\<open>MAC_COPY\<close>: \<^verbatim>\<open>memcmp(a, b, 6) == 0\<close> and
  \<^verbatim>\<open>memcpy(dst, src, 6)\<close>.\<close>

definition MAC_EQUAL :: "u8 list \<Rightarrow> u8 list \<Rightarrow> bool" where
  "MAC_EQUAL a b = (take 6 a = take 6 b)"

definition MAC_COPY :: "u8 list \<Rightarrow> mac" where
  "MAC_COPY src = take 6 src"

definition broadcast :: mac where
  "broadcast = [255, 255, 255, 255, 255, 255]"

subsection \<open>Message sending\<close>

definition sendBroadcast :: "MeshMessage \<Rightarrow> event list" where
  "sendBroadcast msg = [Send broadcast msg (18 + dataLen msg)]"

definition sendUnicast :: "u8 list \<Rightarrow> MeshMessage \<Rightarrow> event list" where
  "sendUnicast dest msg = [Send (MAC_COPY dest) msg (18 + dataLen msg)]"

definition sendDiscovery :: "mesh_state \<Rightarrow> mesh_state \<times> event list" where
  "sendDiscovery st =
     (let msg = \<lparr>type = MSG_DISCOVERY, srcMac = MAC_COPY (myMac st), dstMac = replicate 6 255,
                 MeshMessage.hopCount = 0, sequenceNum = sequenceNumber st, dataLen = 1,
                 data = [if mesh_state.isGateway st then 1 else 0]\<rparr>
      in (st\<lparr>sequenceNumber := sequenceNumber st + 1\<rparr>, sendBroadcast msg))"

definition sendHeartbeat :: "mesh_state \<Rightarrow> mesh_state \<times> event list" where
  "sendHeartbeat st =
     (let msg = \<lparr>type = MSG_HEARTBEAT, srcMac = MAC_COPY (myMac st), dstMac = replicate 6 255,
                 MeshMessage.hopCount = 0, sequenceNum = sequenceNumber st, dataLen = 2,
                 data = [word_of_int (peerCount st), if mesh_state.isGateway st then 1 else 0]\<rparr>
      in (st\<lparr>sequenceNumber := sequenceNumber st + 1\<rparr>, sendBroadcast msg))"

subsection \<open>Routing table\<close>

text \<open>\<^verbatim>\<open>findRoute\<close> returns a pointer into the table or \<^verbatim>\<open>nullptr\<close>: the index of the
  entry, or \<open>None\<close>.\<close>

function findRoute_loop :: "RouteEntry list \<Rightarrow> int \<Rightarrow> u8 list \<Rightarrow> int \<Rightarrow> nat option" where
  "findRoute_loop tbl n dest i =
     (if i < n
      then (if MAC_EQUAL (destination (tbl ! nat i)) dest then Some (nat i)
            else findRoute_loop tbl n dest (i + 1))
      else None)"
  by pat_completeness auto
termination
  by (relation "measure (\<lambda>(tbl, n, dest, i). nat (n - i))") auto

declare findRoute_loop.simps [simp del]

definition findRoute :: "mesh_state \<Rightarrow> u8 list \<Rightarrow> nat option" where
  "findRoute st dest = findRoute_loop (routingTable st) (routeCount st) dest 0"

definition updateRoute :: "u32 \<Rightarrow> u8 list \<Rightarrow> u8 list \<Rightarrow> u8 \<Rightarrow> mesh_state \<Rightarrow> mesh_state" where
  "updateRoute now dest nxt hops st =
     (case findRoute st dest of
        Some k \<Rightarrow>
          (let e = routingTable st ! k;
               e1 = (if hops < RouteEntry.hopCount e
                     then e\<lparr>nextHop := MAC_COPY nxt, RouteEntry.hopCount := hops\<rparr>
                     else e)
           in st\<lparr>routingTable := (routingTable st)[k := e1\<lparr>lastUpdated := now\<rparr>]\<rparr>)
      | None \<Rightarrow>
          (if routeCount st < MAX_PEERS
           then st\<lparr>routingTable := (routingTable st)[nat (routeCount st) :=
                      \<lparr>destination = MAC_COPY dest, nextHop = MAC_COPY nxt,
                       RouteEntry.hopCount = hops, lastUpdated = now\<rparr>],
                    routeCount := routeCount st + 1\<rparr>
           else st))"

subsection \<open>Peer management\<close>

function findPeer_loop :: "MeshPeer list \<Rightarrow> int \<Rightarrow> u8 list \<Rightarrow> int \<Rightarrow> int" where
  "findPeer_loop ps n m i =
     (if i < n
      then (if MAC_EQUAL (mac (ps ! nat i)) m then i else findPeer_loop ps n m (i + 1))
      else - 1)"
  by pat_completeness auto
termination
  by (relation "measure (\<lambda>(ps, n, m, i). nat (n - i))") auto

declare findPeer_loop.simps [simp del]

definition findPeer :: "mesh_state \<Rightarrow> u8 list \<Rightarrow> int" where
  "findPeer st m = findPeer_loop (peers st) (peerCount st) m 0"

text \<open>The loop of \<^verbatim>\<open>removeStalePeers\<close>, on the array, the read index \<open>i\<close> and the write
  index \<open>writeIdx\<close>; it returns the array and the final \<open>writeIdx\<close>.\<close>

function removeStalePeers_loop ::
    "u32 \<Rightarrow> int \<Rightarrow> MeshPeer list \<Rightarrow> int \<Rightarrow> int \<Rightarrow> MeshPeer list \<times> int" where
  "removeStalePeers_loop now n ps writeIdx i =
     (if i < n
      then (if now - lastSeen (ps ! nat i) < PEER_TIMEOUT
            then removeStalePeers_loop now n
                   (if writeIdx \<noteq> i then ps[nat writeIdx := ps ! nat i] else ps)
                   (writeIdx + 1) (i + 1)
            else removeStalePeers_loop now n ps writeIdx (i + 1))
      else (ps, writeIdx))"
  by pat_completeness auto
termination
  by (relation "measure (\<lambda>(now, n, ps, writeIdx, i). nat (n - i))") auto

declare removeStalePeers_loop.simps [simp del]

definition removeStalePeers :: "u32 \<Rightarrow> mesh_state \<Rightarrow> mesh_state" where
  "removeStalePeers now st =
     (case removeStalePeers_loop now (peerCount st) (peers st) 0 0 of
        (ps, writeIdx) \<Rightarrow> st\<lparr>peers := ps, peerCount := writeIdx\<rparr>)"

definition addPeer :: "u32 \<Rightarrow> u8 list \<Rightarrow> i8 \<Rightarrow> u8 \<Rightarrow> bool \<Rightarrow> mesh_state \<Rightarrow> int \<times> mesh_state" where
  "addPeer now m rssi_in hops isGatewayPeer st =
     (let st1 = (if peerCount st \<ge> MAX_PEERS then removeStalePeers now st else st)
      in if peerCount st \<ge> MAX_PEERS \<and> peerCount st1 \<ge> MAX_PEERS then (- 1, st1)
         else
           (let idx = peerCount st1
            in (idx, st1\<lparr>peers := (peers st1)[nat idx :=
                            \<lparr>mac = MAC_COPY m, rssi = rssi_in, lastSeen = now,
                             MeshPeer.hopCount = hops, isGateway = isGatewayPeer,
                             isActive = True\<rparr>],
                          peerCount := idx + 1\<rparr>)))"

subsection \<open>Message processing\<close>

definition handleDiscovery :: "u32 \<Rightarrow> MeshMessage \<Rightarrow> mesh_state \<Rightarrow> mesh_state \<times> event list" where
  "handleDiscovery now msg st =
     (let (st1, out) =
            (if MeshMessage.hopCount msg < 3
             then (let reply = \<lparr>type = MSG_DISCOVERY, srcMac = MAC_COPY (myMac st),
                                 dstMac = MAC_COPY (srcMac msg),
                                 MeshMessage.hopCount = MeshMessage.hopCount msg + 1,
                                 sequenceNum = sequenceNumber st, dataLen = 1,
                                 data = [if mesh_state.isGateway st then 1 else 0]\<rparr>
                   in (st\<lparr>sequenceNumber := sequenceNumber st + 1\<rparr>,
                       sendUnicast (srcMac msg) reply))
             else (st, []))
      in (updateRoute now (srcMac msg) (srcMac msg) 1 st1, out))"

definition handleData :: "MeshMessage \<Rightarrow> mesh_state \<Rightarrow> mesh_state \<times> event list" where
  "handleData msg st =
     (if MAC_EQUAL (dstMac msg) (myMac st)
      then (case onDataReceived st of
              Some cb \<Rightarrow> (st, [Deliver cb (srcMac msg) (data msg) (dataLen msg)])
            | None \<Rightarrow> (st, []))
      else if MeshMessage.hopCount msg < 5
      then (let msg1 = msg\<lparr>MeshMessage.hopCount := MeshMessage.hopCount msg + 1\<rparr>
            in case findRoute st (dstMac msg1) of
                 Some k \<Rightarrow> (st, sendUnicast (nextHop (routingTable st ! k)) msg1)
               | None \<Rightarrow> (st, sendBroadcast msg1))
      else (st, []))"

definition handleRouteRequest :: "MeshMessage \<Rightarrow> mesh_state \<Rightarrow> mesh_state \<times> event list" where
  "handleRouteRequest msg st =
     (let route = findRoute st (data msg)
      in if route \<noteq> None \<or> MAC_EQUAL (data msg) (myMac st)
         then (let reply = \<lparr>type = MSG_ROUTE_REPLY, srcMac = MAC_COPY (myMac st),
                             dstMac = MAC_COPY (srcMac msg), MeshMessage.hopCount = 0,
                             sequenceNum = sequenceNumber st, dataLen = 7,
                             data = MAC_COPY (data msg) @
                               [case route of
                                  Some k \<Rightarrow> RouteEntry.hopCount (routingTable st ! k) + 1
                                | None \<Rightarrow> 1]\<rparr>
               in (st\<lparr>sequenceNumber := sequenceNumber st + 1\<rparr>,
                   sendUnicast (srcMac msg) reply))
         else if MeshMessage.hopCount msg < 5
         then (st, sendBroadcast (msg\<lparr>MeshMessage.hopCount := MeshMessage.hopCount msg + 1\<rparr>))
         else (st, []))"

definition handleRouteReply :: "u32 \<Rightarrow> MeshMessage \<Rightarrow> mesh_state \<Rightarrow> mesh_state \<times> event list" where
  "handleRouteReply now msg st =
     (let hops = data msg ! 6
      in (updateRoute now (data msg) (srcMac msg) hops st, []))"

definition processMessage :: "u32 \<Rightarrow> MeshMessage \<Rightarrow> mesh_state \<Rightarrow> mesh_state \<times> event list" where
  "processMessage now msg st =
     (if MAC_EQUAL (srcMac msg) (myMac st) then (st, [])
      else
        (let peerIdx = findPeer st (srcMac msg);
             st1 = (if peerIdx < 0
                    then snd (addPeer now (srcMac msg) (- 50) (MeshMessage.hopCount msg)
                                (data msg ! 0 = 1) st)
                    else st\<lparr>peers := (peers st)[nat peerIdx :=
                              (peers st ! nat peerIdx)\<lparr>lastSeen := now,
                                 MeshPeer.hopCount := MeshMessage.hopCount msg\<rparr>]\<rparr>)
         in if type msg = MSG_DISCOVERY then handleDiscovery now msg st1
            else if type msg = MSG_HEARTBEAT then (st1, [])
            else if type msg = MSG_DATA then handleData msg st1
            else if type msg = MSG_ROUTE_REQUEST then handleRouteRequest msg st1
            else if type msg = MSG_ROUTE_REPLY then handleRouteReply now msg st1
            else (st1, [])))"

text \<open>\<^verbatim>\<open>sendData\<close>: \<open>dat\<close> is the caller's buffer and \<open>len\<close> its declared length.\<close>

definition sendData :: "u8 list \<Rightarrow> u8 list \<Rightarrow> u16 \<Rightarrow> mesh_state \<Rightarrow> mesh_state \<times> event list" where
  "sendData dest dat len st =
     (let len1 = (if len > 200 then 200 else len);
          nxt = (case findRoute st dest of
                   Some k \<Rightarrow> nextHop (routingTable st ! k)
                 | None \<Rightarrow> dest);
          msg = \<lparr>type = MSG_DATA, srcMac = MAC_COPY (myMac st), dstMac = MAC_COPY dest,
                 MeshMessage.hopCount = 0, sequenceNum = sequenceNumber st, dataLen = len1,
                 data = take (unat len1) dat\<rparr>
      in (st\<lparr>sequenceNumber := sequenceNumber st + 1\<rparr>, sendUnicast nxt msg))"

subsection \<open>The receive callback\<close>

text \<open>The layout of \<^verbatim>\<open>struct MeshMessage\<close> on the ESP32 (little-endian, no padding:
  the two 16-bit fields sit at the even offsets 14 and 16, the payload at 18, 218 bytes
  in all).\<close>

definition u16_le :: "u8 \<Rightarrow> u8 \<Rightarrow> u16" where
  "u16_le lo hi = ucast lo OR push_bit 8 (ucast hi)"

definition msg_of_bytes :: "u8 list \<Rightarrow> MeshMessage" where
  "msg_of_bytes bs =
     \<lparr>type = bs ! 0, srcMac = take 6 (drop 1 bs), dstMac = take 6 (drop 7 bs),
      MeshMessage.hopCount = bs ! 13, sequenceNum = u16_le (bs ! 14) (bs ! 15),
      dataLen = u16_le (bs ! 16) (bs ! 17), data = take 200 (drop 18 bs)\<rparr>"

text \<open>\<^verbatim>\<open>onDataRecv\<close>: \<open>buf\<close> is the received buffer, \<^verbatim>\<open>len\<close> its length. \<open>stack\<close> is what
  the 218 bytes of the local \<^verbatim>\<open>msg\<close> held before \<^verbatim>\<open>memcpy(&msg, data, len)\<close>, which
  overwrites the first \<^verbatim>\<open>len\<close> of them. A buffer longer than the struct makes
  \<^verbatim>\<open>memcpy\<close> write past \<^verbatim>\<open>msg\<close>: the result \<open>None\<close>.\<close>

definition onDataRecv ::
    "u8 list \<Rightarrow> u32 \<Rightarrow> u8 list \<Rightarrow> mesh_state \<Rightarrow> (mesh_state \<times> event list) option" where
  "onDataRecv stack now buf st =
     (if length buf < 218 - 200 then Some (st, [])
      else if length buf > 218 then None
      else Some (processMessage now (msg_of_bytes (buf @ drop (length buf) stack)) st))"

subsection \<open>Main loop functions\<close>

definition meshLoop :: "u32 \<Rightarrow> mesh_state \<Rightarrow> mesh_state \<times> event list" where
  "meshLoop now st =
     (if now - lastHeartbeat st > HEARTBEAT_INTERVAL
      then (let (st1, out) = sendHeartbeat st
            in (removeStalePeers now (st1\<lparr>lastHeartbeat := now\<rparr>), out))
      else (st, []))"

definition setDataCallback :: "nat option \<Rightarrow> mesh_state \<Rightarrow> mesh_state" where
  "setDataCallback callback st = st\<lparr>onDataReceived := callback\<rparr>"

definition setGatewayMode :: "bool \<Rightarrow> mesh_state \<Rightarrow> mesh_state" where
  "setGatewayMode gateway st = st\<lparr>mesh_state.isGateway := gateway\<rparr>"

definition getPeerCount :: "mesh_state \<Rightarrow> int" where
  "getPeerCount st = peerCount st"

subsection \<open>Initialisation\<close>

text \<open>The globals before \<^verbatim>\<open>initMesh\<close>: zero-initialised storage.\<close>

definition zero_peer :: MeshPeer where
  "zero_peer = \<lparr>mac = replicate 6 0, rssi = 0, lastSeen = 0, MeshPeer.hopCount = 0,
                isGateway = False, isActive = False\<rparr>"

definition zero_route :: RouteEntry where
  "zero_route = \<lparr>destination = replicate 6 0, nextHop = replicate 6 0,
                 RouteEntry.hopCount = 0, lastUpdated = 0\<rparr>"

definition boot_state :: mesh_state where
  "boot_state = \<lparr>myMac = replicate 6 0, peers = replicate 20 zero_peer, peerCount = 0,
                 routingTable = replicate 20 zero_route, routeCount = 0, sequenceNumber = 0,
                 mesh_state.isGateway = False, lastHeartbeat = 0, onDataReceived = None\<rparr>"

text \<open>\<^verbatim>\<open>initMesh\<close>: \<open>hw\<close> is the address \<^verbatim>\<open>esp_wifi_get_mac\<close> writes, \<open>ok\<close> whether
  \<^verbatim>\<open>esp_now_init\<close> returned \<^verbatim>\<open>ESP_OK\<close>.\<close>

definition initMesh :: "u8 list \<Rightarrow> bool \<Rightarrow> mesh_state \<Rightarrow> mesh_state \<times> event list" where
  "initMesh hw ok st =
     (let st1 = st\<lparr>myMac := MAC_COPY hw\<rparr>
      in if \<not> ok then (st1, []) else sendDiscovery st1)"

subsection \<open>Reachable states\<close>

text \<open>The states the node can be in: the zero-initialised globals, and from there any
  sequence of calls of the public functions of mesh\_network.h and of receptions.
  \<^verbatim>\<open>onDataRecv\<close> enters \<open>processMessage\<close> with the frame it copied, so the rule for
  \<open>processMessage\<close> at an arbitrary frame covers every reception.\<close>

inductive reachable :: "mesh_state \<Rightarrow> bool" where
  r_boot: "reachable boot_state"
| r_init: "reachable st \<Longrightarrow> reachable (fst (initMesh hw ok st))"
| r_recv: "reachable st \<Longrightarrow> reachable (fst (processMessage now msg st))"
| r_loop: "reachable st \<Longrightarrow> reachable (fst (meshLoop now st))"
| r_send: "reachable st \<Longrightarrow> reachable (fst (sendData dest dat len st))"
| r_discovery: "reachable st \<Longrightarrow> reachable (fst (sendDiscovery st))"
| r_callback: "reachable st \<Longrightarrow> reachable (setDataCallback callback st)"
| r_gateway: "reachable st \<Longrightarrow> reachable (setGatewayMode gateway st)"

subsection \<open>Observations on events and tables\<close>

text \<open>The hop counts, the frames themselves and the link-layer addresses of what is handed
  to \<^verbatim>\<open>esp_now_send\<close>, and the live part of the peer table: the entries below
  \<^verbatim>\<open>peerCount\<close>.\<close>

fun sent_hops :: "event list \<Rightarrow> u8 list" where
  "sent_hops [] = []"
| "sent_hops (Send a m l # es) = MeshMessage.hopCount m # sent_hops es"
| "sent_hops (Deliver cb s d l # es) = sent_hops es"

fun sent_frames :: "event list \<Rightarrow> MeshMessage list" where
  "sent_frames [] = []"
| "sent_frames (Send a m l # es) = m # sent_frames es"
| "sent_frames (Deliver cb s d l # es) = sent_frames es"

fun sent_addrs :: "event list \<Rightarrow> mac list" where
  "sent_addrs [] = []"
| "sent_addrs (Send a m l # es) = a # sent_addrs es"
| "sent_addrs (Deliver cb s d l # es) = sent_addrs es"

definition live_peers :: "mesh_state \<Rightarrow> MeshPeer list" where
  "live_peers st = take (nat (peerCount st)) (peers st)"

text \<open>The bounds the arrays impose: both have \<^verbatim>\<open>MAX_PEERS\<close> slots, and the counters stay
  within them.\<close>

definition bounded :: "mesh_state \<Rightarrow> bool" where
  "bounded st =
     (int (length (peers st)) = MAX_PEERS \<and> int (length (routingTable st)) = MAX_PEERS \<and>
      0 \<le> peerCount st \<and> peerCount st \<le> MAX_PEERS \<and>
      0 \<le> routeCount st \<and> routeCount st \<le> MAX_PEERS)"

definition fresh :: "u32 \<Rightarrow> MeshPeer \<Rightarrow> bool" where
  "fresh now p = (now - lastSeen p < PEER_TIMEOUT)"

text \<open>Every live peer entry holds the signal strength -50.\<close>

definition rssi_fixed :: "mesh_state \<Rightarrow> bool" where
  "rssi_fixed st = (\<forall>p \<in> set (live_peers st). rssi p = - 50)"

subsection \<open>The steps of processMessage\<close>

text \<open>The two steps of \<open>processMessage\<close> after the self check, named for the proofs:
  the update of the peer table, and the \<^verbatim>\<open>switch\<close> on the frame type.\<close>

definition peer_update :: "u32 \<Rightarrow> MeshMessage \<Rightarrow> mesh_state \<Rightarrow> mesh_state" where
  "peer_update now msg st =
     (if findPeer st (srcMac msg) < 0
      then snd (addPeer now (srcMac msg) (- 50) (MeshMessage.hopCount msg) (data msg ! 0 = 1) st)
      else st\<lparr>peers := (peers st)[nat (findPeer st (srcMac msg)) :=
                (peers st ! nat (findPeer st (srcMac msg)))\<lparr>lastSeen := now,
                   MeshPeer.hopCount := MeshMessage.hopCount msg\<rparr>]\<rparr>)"

definition dispatch :: "u32 \<Rightarrow> MeshMessage \<Rightarrow> mesh_state \<Rightarrow> mesh_state \<times> event list" where
  "dispatch now msg st =
     (if type msg = MSG_DISCOVERY then handleDiscovery now msg st
      else if type msg = MSG_HEARTBEAT then (st, [])
      else if type msg = MSG_DATA then handleData msg st
      else if type msg = MSG_ROUTE_REQUEST then handleRouteRequest msg st
      else if type msg = MSG_ROUTE_REPLY then handleRouteReply now msg st
      else (st, []))"

subsection \<open>Example nodes and frames\<close>

definition macA :: mac where
  "macA = [170, 0, 0, 0, 0, 1]"

definition macB :: mac where
  "macB = [187, 0, 0, 0, 0, 2]"

definition macC :: mac where
  "macC = [204, 0, 0, 0, 0, 3]"

definition macD :: mac where
  "macD = [221, 0, 0, 0, 0, 4]"

text \<open>Node A after \<^verbatim>\<open>esp_wifi_get_mac\<close>, with empty tables.\<close>

definition nodeA :: mesh_state where
  "nodeA = boot_state\<lparr>myMac := macA\<rparr>"

definition frame :: "u8 \<Rightarrow> mac \<Rightarrow> mac \<Rightarrow> u8 \<Rightarrow> u8 list \<Rightarrow> MeshMessage" where
  "frame t s d h payload =
     \<lparr>type = t, srcMac = s, dstMac = d, MeshMessage.hopCount = h, sequenceNum = 0,
      dataLen = word_of_nat (length payload), data = payload @ replicate (200 - length payload) 0\<rparr>"

text \<open>A received buffer: a HEARTBEAT that carries node A's own address as its source,
  18 bytes of header and two of payload.\<close>

definition self_heartbeat :: "u8 list" where
  "self_heartbeat = [2] @ macA @ broadcast @ [0, 7, 0, 2, 0] @ [1, 0]"

text \<open>A peer entry as \<open>processMessage\<close> inserts it, and node A with three peers last
  seen at 0, 1 and 500 ms.\<close>

definition peer_at :: "mac \<Rightarrow> u32 \<Rightarrow> bool \<Rightarrow> MeshPeer" where
  "peer_at m t g = \<lparr>mac = m, rssi = - 50, lastSeen = t, MeshPeer.hopCount = 0, isGateway = g,
                    isActive = True\<rparr>"

definition three_peers :: mesh_state where
  "three_peers = nodeA\<lparr>peers := [peer_at macB 0 False, peer_at macC 1 False, peer_at macD 500 True]
                            @ replicate 17 zero_peer,
                        peerCount := 3\<rparr>"


definition route_to :: "mac \<Rightarrow> mac \<Rightarrow> u8 \<Rightarrow> u32 \<Rightarrow> RouteEntry" where
  "route_to d nh h t = \<lparr>destination = d, nextHop = nh, RouteEntry.hopCount = h, lastUpdated = t\<rparr>"


text \<open>A DISCOVERY frame from node B, not a gateway, and node A after it has processed
  that frame at time 5.\<close>

definition discovery_B :: MeshMessage where
  "discovery_B = frame MSG_DISCOVERY macB broadcast 0 [0]"

definition nodeA_knows_B :: mesh_state where
  "nodeA_knows_B = fst (processMessage 5 discovery_B nodeA)"

text \<open>Node A with one route: D via B, three hops, learnt at time 0.\<close>

definition nodeA_route_D :: mesh_state where
  "nodeA_route_D = nodeA\<lparr>routingTable := (replicate 20 zero_route)[0 := route_to macD macB 3 0],
                          routeCount := 1\<rparr>"

text \<open>Frames from node B received by node A: a DATA frame for node C and a ROUTE_REQUEST
  for node D, both after four hops; and a ROUTE_REQUEST for node A itself after seven.\<close>

definition data_B_to_C :: MeshMessage where
  "data_B_to_C = frame MSG_DATA macB macC 4 [104, 105]"

definition request_B_for_D :: MeshMessage where
  "request_B_for_D = frame MSG_ROUTE_REQUEST macB broadcast 4 macD"

definition request_B_for_A :: MeshMessage where
  "request_B_for_A = frame MSG_ROUTE_REQUEST macB broadcast 7 macA"

text \<open>The DATA frame from node B for node C with the largest hop count a byte holds.\<close>

definition data_B_to_C_late :: MeshMessage where
  "data_B_to_C_late = frame MSG_DATA macB macC 255 [104, 105]"

text \<open>A DATA frame from node B for node D, after one hop.\<close>

definition data_B_to_D :: MeshMessage where
  "data_B_to_D = frame MSG_DATA macB macD 1 [104, 105]"

text \<open>A DISCOVERY frame from node B that announces a gateway (payload byte 1), and a
  received buffer of exactly 18 bytes: the header of a HEARTBEAT from node B whose length
  field declares 200 bytes of payload.\<close>

definition discovery_B_gateway :: MeshMessage where
  "discovery_B_gateway = frame MSG_DISCOVERY macB macA 1 [1]"

definition short_heartbeat :: "u8 list" where
  "short_heartbeat = [2] @ macB @ broadcast @ [0, 7, 0, 200, 0]"

section \<open>Properties\<close>

subsection \<open>Frames from the node itself\<close>

text \<open>
  C8. A received frame whose source address equals the node's own address
  (\<^verbatim>\<open>memcmp(msg->srcMac, myMac, 6) == 0\<close>) is dropped at once: \<open>processMessage\<close> returns
  the state it was given, with every field as it was (peer table, routing table, sequence
  counter, heartbeat time, gateway flag, callback), and hands nothing to the link driver
  or to the application. The same holds for the reception \<open>onDataRecv\<close> of any buffer of
  18 to 218 bytes that carries such a frame.
\<close>

theorem self_frame_ignored:
  assumes "MAC_EQUAL (srcMac msg) (myMac st)"
  shows "processMessage now msg st = (st, []) \<and>
         (18 \<le> length buf \<and> length buf \<le> 218 \<and>
          msg_of_bytes (buf @ drop (length buf) stack) = msg \<longrightarrow>
          onDataRecv stack now buf st = Some (st, []))"
  using assms by (simp add: processMessage_def onDataRecv_def)

theorem self_frame_ignored_witness:
  "MAC_EQUAL (srcMac (msg_of_bytes (self_heartbeat @ drop (length self_heartbeat) [])))
     (myMac nodeA) \<and>
   processMessage 5 (msg_of_bytes (self_heartbeat @ drop (length self_heartbeat) [])) nodeA
     = (nodeA, []) \<and>
   18 \<le> length self_heartbeat \<and> length self_heartbeat \<le> 218 \<and>
   onDataRecv [] 5 self_heartbeat nodeA = Some (nodeA, [])"
proof -
  have own: "MAC_EQUAL (srcMac (msg_of_bytes (self_heartbeat @ drop (length self_heartbeat) [])))
     (myMac nodeA)"
    by (simp add: MAC_EQUAL_def msg_of_bytes_def self_heartbeat_def nodeA_def macA_def)
  have len: "18 \<le> length self_heartbeat \<and> length self_heartbeat \<le> 218"
    by (simp add: self_heartbeat_def macA_def broadcast_def)
  from self_frame_ignored [OF own, of 5 self_heartbeat "[]"] own len show ?thesis
    by simp
qed

subsection \<open>Eviction of stale peers\<close>

text \<open>The loop of \<^verbatim>\<open>removeStalePeers\<close> compacts in place: after it has read the entries
  below \<open>i\<close>, the entries below \<open>writeIdx\<close> are the fresh ones among them, in their
  order, and the entries from \<open>i\<close> on are untouched.\<close>

lemma take_Suc_update_same:
  "w < length ps \<Longrightarrow> take (Suc w) (ps[w := x]) = take w ps @ [x]"
  by (simp add: take_Suc_conv_app_nth)

lemma removeStalePeers_loop_spec:
  "0 \<le> w \<Longrightarrow> w \<le> i \<Longrightarrow> i \<le> n \<Longrightarrow> n \<le> int (length ps) \<Longrightarrow>
   (case removeStalePeers_loop now n ps w i of (ps', w') \<Rightarrow>
      length ps' = length ps \<and> w \<le> w' \<and> w' \<le> n \<and>
      take (nat w') ps' =
        take (nat w) ps @ filter (fresh now) (drop (nat i) (take (nat n) ps)))"
proof (induction now n ps w i rule: removeStalePeers_loop.induct)
  case (1 now n ps w i)
  show ?case
  proof (cases "i < n")
    case False
    then have "removeStalePeers_loop now n ps w i = (ps, w)"
      by (subst removeStalePeers_loop.simps) simp
    with "1.prems" False show ?thesis by simp
  next
    case True
    note lt = True
    have inat: "nat i < length ps" "nat i < nat n" using lt "1.prems" by auto
    have dr: "drop (nat i) (take (nat n) ps) = ps ! nat i # drop (nat (i + 1)) (take (nat n) ps)"
    proof -
      have "nat i < length (take (nat n) ps)" using inat by simp
      from Cons_nth_drop_Suc [OF this] inat "1.prems" show ?thesis
        by (simp add: nat_add_distrib)
    qed
    show ?thesis
    proof (cases "now - lastSeen (ps ! nat i) < PEER_TIMEOUT")
      case False
      have "case removeStalePeers_loop now n ps w (i + 1) of (ps', w') \<Rightarrow>
              length ps' = length ps \<and> w \<le> w' \<and> w' \<le> n \<and>
              take (nat w') ps' =
                take (nat w) ps @ filter (fresh now) (drop (nat (i + 1)) (take (nat n) ps))"
        using "1.IH"(2) [OF lt False] "1.prems" lt by simp
      moreover have "removeStalePeers_loop now n ps w i = removeStalePeers_loop now n ps w (i + 1)"
        using lt False by (subst removeStalePeers_loop.simps) simp
      moreover have "\<not> fresh now (ps ! nat i)" using False by (simp add: fresh_def)
      ultimately show ?thesis
        using dr by simp
    next
      case True
      define ps1 where "ps1 = (if w \<noteq> i then ps[nat w := ps ! nat i] else ps)"
      have len1: "length ps1 = length ps" by (simp add: ps1_def)
      have tk: "take (nat (w + 1)) ps1 = take (nat w) ps @ [ps ! nat i]"
      proof (cases "w = i")
        case True
        then show ?thesis using inat "1.prems"
          by (simp add: ps1_def nat_add_distrib take_Suc_conv_app_nth)
      next
        case False
        then have "nat w < length ps" using inat "1.prems" by auto
        then show ?thesis using False "1.prems"
          by (simp add: ps1_def nat_add_distrib take_Suc_update_same)
      qed
      have dr1: "drop (nat (i + 1)) (take (nat n) ps1) = drop (nat (i + 1)) (take (nat n) ps)"
        using "1.prems" by (simp add: ps1_def drop_take nat_add_distrib)
      have "case removeStalePeers_loop now n ps1 (w + 1) (i + 1) of (ps', w') \<Rightarrow>
              length ps' = length ps1 \<and> w + 1 \<le> w' \<and> w' \<le> n \<and>
              take (nat w') ps' =
                take (nat (w + 1)) ps1 @ filter (fresh now) (drop (nat (i + 1)) (take (nat n) ps1))"
        using "1.IH"(1) [OF lt True] "1.prems" lt len1 unfolding ps1_def by simp
      moreover have "removeStalePeers_loop now n ps w i =
                     removeStalePeers_loop now n ps1 (w + 1) (i + 1)"
        using lt True unfolding ps1_def by (subst removeStalePeers_loop.simps) simp
      moreover have "fresh now (ps ! nat i)" using True by (simp add: fresh_def)
      ultimately show ?thesis
        using dr tk dr1 len1
        by (auto split: prod.splits)
    qed
  qed
qed

text \<open>
  C6. For every peer table and every time \<open>now\<close>, \<^verbatim>\<open>removeStalePeers\<close> removes exactly
  the entries whose age \<open>now - lastSeen\<close> (the unsigned 32-bit difference the source
  computes) is at least \<^verbatim>\<open>PEER_TIMEOUT\<close>: the live entries afterwards are the live entries
  before with those filtered out, in the same relative order; every surviving entry has
  \<open>now - lastSeen < PEER_TIMEOUT\<close>; and no other global changes.
\<close>

theorem removeStalePeers_evicts:
  assumes "0 \<le> peerCount st" and "peerCount st \<le> int (length (peers st))"
  shows "live_peers (removeStalePeers now st) =
           filter (\<lambda>p. \<not> PEER_TIMEOUT \<le> now - lastSeen p) (live_peers st) \<and>
         (\<forall>p \<in> set (live_peers (removeStalePeers now st)). now - lastSeen p < PEER_TIMEOUT) \<and>
         removeStalePeers now st =
           st\<lparr>peers := peers (removeStalePeers now st),
              peerCount := peerCount (removeStalePeers now st)\<rparr>"
proof -
  obtain ps' w' where run: "removeStalePeers_loop now (peerCount st) (peers st) 0 0 = (ps', w')"
    by (cases "removeStalePeers_loop now (peerCount st) (peers st) 0 0")
  from removeStalePeers_loop_spec [of 0 0 "peerCount st" "peers st" now] assms run
  have "take (nat w') ps' = filter (fresh now) (take (nat (peerCount st)) (peers st))"
    by simp
  moreover have "fresh now = (\<lambda>p. \<not> PEER_TIMEOUT \<le> now - lastSeen p)"
    by (auto simp: fresh_def)
  ultimately have keep: "live_peers (removeStalePeers now st) =
      filter (\<lambda>p. \<not> PEER_TIMEOUT \<le> now - lastSeen p) (live_peers st)"
    using run by (simp add: live_peers_def removeStalePeers_def)
  then have "\<forall>p \<in> set (live_peers (removeStalePeers now st)). now - lastSeen p < PEER_TIMEOUT"
    by auto
  with keep run show ?thesis
    by (simp add: removeStalePeers_def)
qed

theorem removeStalePeers_evicts_witness:
  "0 \<le> peerCount three_peers \<and> peerCount three_peers \<le> int (length (peers three_peers)) \<and>
   live_peers three_peers = [peer_at macB 0 False, peer_at macC 1 False, peer_at macD 500 True] \<and>
   live_peers (removeStalePeers 120000 three_peers) = [peer_at macC 1 False, peer_at macD 500 True]"
proof -
  have b: "0 \<le> peerCount three_peers" "peerCount three_peers \<le> int (length (peers three_peers))"
    by (simp_all add: three_peers_def)
  have l: "live_peers three_peers = [peer_at macB 0 False, peer_at macC 1 False, peer_at macD 500 True]"
    by (simp add: live_peers_def three_peers_def)
  from removeStalePeers_evicts [OF b, of 120000] b l show ?thesis
    by (simp add: peer_at_def PEER_TIMEOUT_def)
qed

subsection \<open>The search loops\<close>

lemma findPeer_loop_range:
  "0 \<le> i \<Longrightarrow> findPeer_loop ps n m i = - 1 \<or>
     (i \<le> findPeer_loop ps n m i \<and> findPeer_loop ps n m i < n \<and>
      MAC_EQUAL (mac (ps ! nat (findPeer_loop ps n m i))) m)"
proof (induction ps n m i rule: findPeer_loop.induct)
  case (1 ps n m i)
  show ?case
  proof (cases "i < n \<and> \<not> MAC_EQUAL (mac (ps ! nat i)) m")
    case True
    then have "findPeer_loop ps n m i = findPeer_loop ps n m (i + 1)"
      by (subst findPeer_loop.simps) simp
    with "1.IH" [of] True "1.prems" show ?thesis by auto
  next
    case False
    then show ?thesis
      by (subst (1 2 3 4) findPeer_loop.simps) auto
  qed
qed

lemma findPeer_range:
  "0 \<le> findPeer st m \<Longrightarrow> findPeer st m < peerCount st \<and>
     MAC_EQUAL (mac (peers st ! nat (findPeer st m))) m"
  using findPeer_loop_range [of 0 "peers st" "peerCount st" m]
  by (auto simp: findPeer_def)

lemma findRoute_loop_Some:
  "0 \<le> i \<Longrightarrow> findRoute_loop tbl n d i = Some k \<Longrightarrow>
     i \<le> int k \<and> int k < n \<and> MAC_EQUAL (destination (tbl ! k)) d"
proof (induction tbl n d i rule: findRoute_loop.induct)
  case (1 tbl n d i)
  show ?case
  proof (cases "i < n \<and> \<not> MAC_EQUAL (destination (tbl ! nat i)) d")
    case True
    then have "findRoute_loop tbl n d i = findRoute_loop tbl n d (i + 1)"
      by (subst findRoute_loop.simps) simp
    with "1.IH" True "1.prems" show ?thesis by auto
  next
    case False
    with "1.prems" show ?thesis
      by (subst (asm) findRoute_loop.simps) (auto split: if_splits)
  qed
qed

lemma findRoute_loop_first:
  "0 \<le> i \<Longrightarrow> i \<le> int k \<Longrightarrow> int k < n \<Longrightarrow> MAC_EQUAL (destination (tbl ! k)) d \<Longrightarrow>
   (\<And>j. i \<le> int j \<Longrightarrow> j < k \<Longrightarrow> \<not> MAC_EQUAL (destination (tbl ! j)) d) \<Longrightarrow>
   findRoute_loop tbl n d i = Some k"
proof (induction tbl n d i rule: findRoute_loop.induct)
  case (1 tbl n d i)
  show ?case
  proof (cases "int k = i")
    case True
    with "1.prems" show ?thesis
      by (subst findRoute_loop.simps) auto
  next
    case False
    with "1.prems" have lt: "i < int k" by simp
    with "1.prems" have nm: "\<not> MAC_EQUAL (destination (tbl ! nat i)) d" by auto
    from lt "1.prems" have "i < n" by simp
    with nm have "findRoute_loop tbl n d i = findRoute_loop tbl n d (i + 1)"
      by (subst findRoute_loop.simps) simp
    moreover have "findRoute_loop tbl n d (i + 1) = Some k"
      using "1.IH" [OF \<open>i < n\<close> nm] "1.prems" lt by auto
    ultimately show ?thesis by simp
  qed
qed

lemma findRoute_loop_None:
  "0 \<le> i \<Longrightarrow> findRoute_loop tbl n d i = None \<Longrightarrow> i \<le> int j \<Longrightarrow> int j < n \<Longrightarrow>
     \<not> MAC_EQUAL (destination (tbl ! j)) d"
proof (induction tbl n d i rule: findRoute_loop.induct)
  case (1 tbl n d i)
  from "1.prems" have "i < n" by simp
  with "1.prems"(2) have nm: "\<not> MAC_EQUAL (destination (tbl ! nat i)) d"
    and nxt: "findRoute_loop tbl n d (i + 1) = None"
    by (subst (asm) findRoute_loop.simps, simp split: if_splits)+
  show ?case
  proof (cases "int j = i")
    case True
    with nm show ?thesis by auto
  next
    case False
    with "1.IH" [OF \<open>i < n\<close> nm] nxt "1.prems" show ?thesis by auto
  qed
qed

lemma findRoute_loop_before:
  "0 \<le> i \<Longrightarrow> findRoute_loop tbl n d i = Some k \<Longrightarrow> i \<le> int j \<Longrightarrow> j < k \<Longrightarrow>
     \<not> MAC_EQUAL (destination (tbl ! j)) d"
proof (induction tbl n d i rule: findRoute_loop.induct)
  case (1 tbl n d i)
  from findRoute_loop_Some [OF "1.prems"(1,2)] "1.prems" have "i < n" by simp
  have nm: "\<not> MAC_EQUAL (destination (tbl ! nat i)) d"
  proof
    assume "MAC_EQUAL (destination (tbl ! nat i)) d"
    with \<open>i < n\<close> have "findRoute_loop tbl n d i = Some (nat i)"
      by (subst findRoute_loop.simps) simp
    with "1.prems" show False by auto
  qed
  with \<open>i < n\<close> have nxt: "findRoute_loop tbl n d i = findRoute_loop tbl n d (i + 1)"
    by (subst findRoute_loop.simps) simp
  show ?case
  proof (cases "int j = i")
    case True
    with nm show ?thesis by auto
  next
    case False
    with "1.IH" [OF \<open>i < n\<close> nm] nxt "1.prems" show ?thesis by auto
  qed
qed

subsection \<open>What each function does to the tables\<close>

lemma removeStalePeers_other:
  "myMac (removeStalePeers now st) = myMac st \<and>
   routingTable (removeStalePeers now st) = routingTable st \<and>
   routeCount (removeStalePeers now st) = routeCount st \<and>
   sequenceNumber (removeStalePeers now st) = sequenceNumber st \<and>
   mesh_state.isGateway (removeStalePeers now st) = mesh_state.isGateway st \<and>
   lastHeartbeat (removeStalePeers now st) = lastHeartbeat st \<and>
   onDataReceived (removeStalePeers now st) = onDataReceived st"
  by (simp add: removeStalePeers_def split: prod.splits)

lemma removeStalePeers_live:
  assumes "0 \<le> peerCount st" and "peerCount st \<le> int (length (peers st))"
  shows "live_peers (removeStalePeers now st) = filter (fresh now) (live_peers st)"
    and "length (peers (removeStalePeers now st)) = length (peers st)"
    and "0 \<le> peerCount (removeStalePeers now st)"
    and "peerCount (removeStalePeers now st) \<le> peerCount st"
proof -
  obtain ps' w' where run: "removeStalePeers_loop now (peerCount st) (peers st) 0 0 = (ps', w')"
    by (cases "removeStalePeers_loop now (peerCount st) (peers st) 0 0")
  from removeStalePeers_loop_spec [of 0 0 "peerCount st" "peers st" now] assms run
  have "length ps' = length (peers st) \<and> 0 \<le> w' \<and> w' \<le> peerCount st \<and>
        take (nat w') ps' = filter (fresh now) (take (nat (peerCount st)) (peers st))"
    by simp
  with run show "live_peers (removeStalePeers now st) = filter (fresh now) (live_peers st)"
    and "length (peers (removeStalePeers now st)) = length (peers st)"
    and "0 \<le> peerCount (removeStalePeers now st)"
    and "peerCount (removeStalePeers now st) \<le> peerCount st"
    by (simp_all add: live_peers_def removeStalePeers_def)
qed

lemma removeStalePeers_bounded:
  "bounded st \<Longrightarrow> bounded (removeStalePeers now st)"
  using removeStalePeers_live(2,3,4) [of st now] removeStalePeers_other [of now st]
  by (simp add: bounded_def)

lemma updateRoute_other:
  "myMac (updateRoute now d nh h st) = myMac st \<and>
   peers (updateRoute now d nh h st) = peers st \<and>
   peerCount (updateRoute now d nh h st) = peerCount st \<and>
   sequenceNumber (updateRoute now d nh h st) = sequenceNumber st \<and>
   mesh_state.isGateway (updateRoute now d nh h st) = mesh_state.isGateway st \<and>
   lastHeartbeat (updateRoute now d nh h st) = lastHeartbeat st \<and>
   onDataReceived (updateRoute now d nh h st) = onDataReceived st"
  by (simp add: updateRoute_def Let_def split: option.splits)

lemma updateRoute_count:
  "length (routingTable (updateRoute now d nh h st)) = length (routingTable st) \<and>
   routeCount st \<le> routeCount (updateRoute now d nh h st) \<and>
   (routeCount st \<le> MAX_PEERS \<longrightarrow> routeCount (updateRoute now d nh h st) \<le> MAX_PEERS)"
  by (simp add: updateRoute_def Let_def split: option.splits)

lemma updateRoute_bounded:
  "bounded st \<Longrightarrow> bounded (updateRoute now d nh h st)"
  using updateRoute_other [of now d nh h st] updateRoute_count [of now d nh h st]
  by (simp add: bounded_def)

lemma addPeer_other:
  "myMac (snd (addPeer now m r h g st)) = myMac st \<and>
   routingTable (snd (addPeer now m r h g st)) = routingTable st \<and>
   routeCount (snd (addPeer now m r h g st)) = routeCount st \<and>
   sequenceNumber (snd (addPeer now m r h g st)) = sequenceNumber st \<and>
   mesh_state.isGateway (snd (addPeer now m r h g st)) = mesh_state.isGateway st \<and>
   lastHeartbeat (snd (addPeer now m r h g st)) = lastHeartbeat st \<and>
   onDataReceived (snd (addPeer now m r h g st)) = onDataReceived st"
  using removeStalePeers_other [of now st]
  by (simp add: addPeer_def Let_def)

lemma live_peers_append:
  "0 \<le> peerCount st \<Longrightarrow> peerCount st < int (length (peers st)) \<Longrightarrow>
   live_peers (st\<lparr>peers := (peers st)[nat (peerCount st) := p], peerCount := peerCount st + 1\<rparr>)
     = live_peers st @ [p]"
  by (simp add: live_peers_def nat_add_distrib take_Suc_update_same)

lemma addPeer_live:
  assumes "bounded st"
  shows "live_peers (snd (addPeer now m r h g st)) =
           (if peerCount st \<ge> MAX_PEERS
            then (if peerCount (removeStalePeers now st) \<ge> MAX_PEERS
                  then filter (fresh now) (live_peers st)
                  else filter (fresh now) (live_peers st) @
                    [\<lparr>mac = MAC_COPY m, rssi = r, lastSeen = now, MeshPeer.hopCount = h,
                      isGateway = g, isActive = True\<rparr>])
            else live_peers st @
                    [\<lparr>mac = MAC_COPY m, rssi = r, lastSeen = now, MeshPeer.hopCount = h,
                      isGateway = g, isActive = True\<rparr>])"
proof -
  from assms have b: "0 \<le> peerCount st" "peerCount st \<le> int (length (peers st))"
    by (simp_all add: bounded_def)
  note rl = removeStalePeers_live [OF b, of now]
  from assms have len: "int (length (peers st)) = MAX_PEERS" by (simp add: bounded_def)
  show ?thesis
  proof (cases "peerCount st \<ge> MAX_PEERS")
    case False
    with b len show ?thesis
      by (simp add: addPeer_def Let_def live_peers_append)
  next
    case True
    show ?thesis
    proof (cases "peerCount (removeStalePeers now st) \<ge> MAX_PEERS")
      case True
      with \<open>peerCount st \<ge> MAX_PEERS\<close> rl show ?thesis
        by (simp add: addPeer_def Let_def)
    next
      case False
      with rl len have "peerCount (removeStalePeers now st) <
          int (length (peers (removeStalePeers now st)))" by simp
      from live_peers_append [OF rl(3) this] rl(1) False \<open>peerCount st \<ge> MAX_PEERS\<close>
      show ?thesis
        by (simp add: addPeer_def Let_def)
    qed
  qed
qed

lemma addPeer_bounded:
  assumes "bounded st"
  shows "bounded (snd (addPeer now m r h g st))"
proof -
  from assms have b: "0 \<le> peerCount st" "peerCount st \<le> int (length (peers st))"
    by (simp_all add: bounded_def)
  note rl = removeStalePeers_live(2,3,4) [OF b, of now]
  from rl assms removeStalePeers_other [of now st] show ?thesis
    by (auto simp: addPeer_def Let_def bounded_def)
qed

lemma processMessage_steps:
  "processMessage now msg st =
     (if MAC_EQUAL (srcMac msg) (myMac st) then (st, [])
      else dispatch now msg (peer_update now msg st))"
  by (simp add: processMessage_def peer_update_def dispatch_def Let_def)

lemma dispatch_other:
  "myMac (fst (dispatch now msg st)) = myMac st \<and>
   peers (fst (dispatch now msg st)) = peers st \<and>
   peerCount (fst (dispatch now msg st)) = peerCount st \<and>
   mesh_state.isGateway (fst (dispatch now msg st)) = mesh_state.isGateway st \<and>
   lastHeartbeat (fst (dispatch now msg st)) = lastHeartbeat st \<and>
   onDataReceived (fst (dispatch now msg st)) = onDataReceived st"
  using updateRoute_other
  by (simp add: dispatch_def handleDiscovery_def handleData_def handleRouteRequest_def
      handleRouteReply_def Let_def split: option.splits)

lemma dispatch_bounded:
  assumes "bounded st"
  shows "bounded (fst (dispatch now msg st))"
proof -
  have seq: "bounded (st\<lparr>sequenceNumber := sequenceNumber st + 1\<rparr>)"
    using assms by (simp add: bounded_def)
  from assms seq updateRoute_bounded show ?thesis
    by (simp add: dispatch_def handleDiscovery_def handleData_def handleRouteRequest_def
        handleRouteReply_def Let_def split: option.splits)
qed

lemma peer_update_other:
  "myMac (peer_update now msg st) = myMac st \<and>
   routingTable (peer_update now msg st) = routingTable st \<and>
   routeCount (peer_update now msg st) = routeCount st \<and>
   sequenceNumber (peer_update now msg st) = sequenceNumber st \<and>
   mesh_state.isGateway (peer_update now msg st) = mesh_state.isGateway st \<and>
   lastHeartbeat (peer_update now msg st) = lastHeartbeat st \<and>
   onDataReceived (peer_update now msg st) = onDataReceived st"
  using addPeer_other by (simp add: peer_update_def)

lemma peer_update_bounded:
  "bounded st \<Longrightarrow> bounded (peer_update now msg st)"
  using addPeer_bounded by (simp add: peer_update_def bounded_def)

lemma processMessage_bounded:
  "bounded st \<Longrightarrow> bounded (fst (processMessage now msg st))"
  by (simp add: processMessage_steps dispatch_bounded peer_update_bounded)

lemma sendHeartbeat_state:
  "fst (sendHeartbeat st) = st\<lparr>sequenceNumber := sequenceNumber st + 1\<rparr>"
  by (simp add: sendHeartbeat_def Let_def)

lemma meshLoop_bounded:
  assumes "bounded st"
  shows "bounded (fst (meshLoop now st))"
proof -
  have "bounded (st\<lparr>sequenceNumber := sequenceNumber st + 1, lastHeartbeat := now\<rparr>)"
    using assms by (simp add: bounded_def)
  from removeStalePeers_bounded [OF this] assms show ?thesis
    by (simp add: meshLoop_def sendHeartbeat_def Let_def)
qed

lemma boot_state_bounded: "bounded boot_state"
  by (simp add: bounded_def boot_state_def MAX_PEERS_def)

lemma reachable_bounded:
  "reachable st \<Longrightarrow> bounded st"
proof (induction rule: reachable.induct)
  case r_boot
  show ?case by (rule boot_state_bounded)
next
  case (r_init st hw ok)
  then show ?case
    by (simp add: initMesh_def sendDiscovery_def Let_def bounded_def)
next
  case (r_recv st now msg)
  then show ?case by (simp add: processMessage_bounded)
next
  case (r_loop st now)
  then show ?case by (simp add: meshLoop_bounded)
next
  case (r_send st dest dat len)
  then show ?case by (simp add: sendData_def Let_def bounded_def)
next
  case (r_discovery st)
  then show ?case by (simp add: sendDiscovery_def Let_def bounded_def)
next
  case (r_callback st callback)
  then show ?case by (simp add: setDataCallback_def bounded_def)
next
  case (r_gateway st gateway)
  then show ?case by (simp add: setGatewayMode_def bounded_def)
qed

lemmas consts_defs = MAX_PEERS_def PEER_TIMEOUT_def HEARTBEAT_INTERVAL_def MAX_HOP_COUNT_def
  MSG_DISCOVERY_def MSG_HEARTBEAT_def MSG_DATA_def MSG_ROUTE_REQUEST_def MSG_ROUTE_REPLY_def
  MSG_ACK_def MAC_EQUAL_def MAC_COPY_def broadcast_def

lemmas engine_defs = processMessage_def findPeer_def findPeer_loop.simps addPeer_def
  removeStalePeers_def removeStalePeers_loop.simps handleDiscovery_def handleData_def
  handleRouteRequest_def handleRouteReply_def updateRoute_def findRoute_def
  findRoute_loop.simps sendUnicast_def sendBroadcast_def sendData_def sendHeartbeat_def
  sendDiscovery_def meshLoop_def Let_def

lemmas example_defs = nodeA_def boot_state_def macA_def macB_def macC_def macD_def frame_def
  peer_at_def route_to_def

lemma nodeA_reachable: "reachable nodeA"
proof -
  have "fst (initMesh macA False boot_state) = nodeA"
    by (simp add: initMesh_def nodeA_def macA_def MAC_COPY_def)
  with r_init [OF r_boot, of macA False] show ?thesis by simp
qed

lemma nodeA_knows_B_state:
  "nodeA_knows_B =
     nodeA\<lparr>peers := (replicate 20 zero_peer)[0 := peer_at macB 5 False], peerCount := 1,
           routingTable := (replicate 20 zero_route)[0 := route_to macB macB 1 5],
           routeCount := 1, sequenceNumber := 1\<rparr>"
  by (simp add: nodeA_knows_B_def discovery_B_def consts_defs engine_defs example_defs)

lemma nodeA_knows_B_reachable: "reachable nodeA_knows_B"
  unfolding nodeA_knows_B_def by (rule r_recv [OF nodeA_reachable])

subsection \<open>Full tables\<close>




subsection \<open>Capacity of the tables\<close>







subsection \<open>The stored signal strength\<close>

lemma live_peers_cong:
  "peers st' = peers st \<Longrightarrow> peerCount st' = peerCount st \<Longrightarrow> live_peers st' = live_peers st"
  by (simp add: live_peers_def)

lemma rssi_fixed_cong:
  "peers st' = peers st \<Longrightarrow> peerCount st' = peerCount st \<Longrightarrow> rssi_fixed st' = rssi_fixed st"
  by (simp add: rssi_fixed_def live_peers_def)

lemma removeStalePeers_rssi:
  "bounded st \<Longrightarrow> rssi_fixed st \<Longrightarrow> rssi_fixed (removeStalePeers now st)"
  using removeStalePeers_live(1) [of st now]
  by (simp add: rssi_fixed_def bounded_def)

lemma addPeer_rssi:
  "bounded st \<Longrightarrow> rssi_fixed st \<Longrightarrow> rssi_fixed (snd (addPeer now m (- 50) h g st))"
  by (simp add: rssi_fixed_def addPeer_live)

lemma touch_rssi:
  assumes "bounded st" and "rssi_fixed st" and "0 \<le> k" and "k < peerCount st"
  shows "rssi_fixed (st\<lparr>peers := (peers st)[nat k := (peers st ! nat k)\<lparr>lastSeen := t,
            MeshPeer.hopCount := h\<rparr>]\<rparr>)"
proof -
  let ?x = "(peers st ! nat k)\<lparr>lastSeen := t, MeshPeer.hopCount := h\<rparr>"
  from assms have "nat k < nat (peerCount st)" "peerCount st \<le> int (length (peers st))"
    by (simp_all add: bounded_def)
  then have kl: "nat k < length (live_peers st)"
    by (simp add: live_peers_def)
  then have "live_peers st ! nat k \<in> set (live_peers st)" by (rule nth_mem)
  moreover have "live_peers st ! nat k = peers st ! nat k"
    using assms by (simp add: live_peers_def)
  ultimately have "rssi ?x = - 50" using assms(2) by (simp add: rssi_fixed_def)
  moreover have "set ((live_peers st)[nat k := ?x]) \<subseteq> insert ?x (set (live_peers st))"
    by (rule set_update_subset_insert)
  ultimately show ?thesis
    using assms(2) by (auto simp: rssi_fixed_def live_peers_def take_update_swap)
qed

lemma peer_update_rssi:
  assumes "bounded st" and "rssi_fixed st"
  shows "rssi_fixed (peer_update now msg st)"
proof (cases "findPeer st (srcMac msg) < 0")
  case True
  with assms show ?thesis by (simp add: peer_update_def addPeer_rssi)
next
  case False
  with findPeer_range [of st "srcMac msg"] have "0 \<le> findPeer st (srcMac msg)"
    "findPeer st (srcMac msg) < peerCount st" by simp_all
  from touch_rssi [OF assms this] False show ?thesis by (simp add: peer_update_def)
qed

lemma processMessage_rssi:
  assumes "bounded st" and "rssi_fixed st"
  shows "rssi_fixed (fst (processMessage now msg st))"
proof (cases "MAC_EQUAL (srcMac msg) (myMac st)")
  case True
  with assms show ?thesis by (simp add: processMessage_steps)
next
  case False
  have "rssi_fixed (fst (dispatch now msg (peer_update now msg st))) =
        rssi_fixed (peer_update now msg st)"
    by (rule rssi_fixed_cong) (simp_all add: dispatch_other)
  with False peer_update_rssi [OF assms] show ?thesis by (simp add: processMessage_steps)
qed

lemma meshLoop_rssi:
  assumes "bounded st" and "rssi_fixed st"
  shows "rssi_fixed (fst (meshLoop now st))"
proof -
  let ?s = "st\<lparr>sequenceNumber := sequenceNumber st + 1, lastHeartbeat := now\<rparr>"
  have "bounded ?s" using assms by (simp add: bounded_def)
  moreover have "rssi_fixed ?s" using assms by (simp add: rssi_fixed_def live_peers_def)
  ultimately have "rssi_fixed (removeStalePeers now ?s)" by (rule removeStalePeers_rssi)
  with assms show ?thesis by (simp add: meshLoop_def sendHeartbeat_def Let_def)
qed

lemma reachable_rssi:
  "reachable st \<Longrightarrow> rssi_fixed st"
proof (induction rule: reachable.induct)
  case r_boot
  show ?case by (simp add: rssi_fixed_def live_peers_def boot_state_def)
next
  case (r_init st hw ok)
  then show ?case
    by (simp add: initMesh_def sendDiscovery_def Let_def rssi_fixed_def live_peers_def)
next
  case (r_recv st now msg)
  then show ?case by (simp add: processMessage_rssi reachable_bounded)
next
  case (r_loop st now)
  then show ?case by (simp add: meshLoop_rssi reachable_bounded)
next
  case (r_send st dest dat len)
  then show ?case by (simp add: sendData_def Let_def rssi_fixed_def live_peers_def)
next
  case (r_discovery st)
  then show ?case by (simp add: sendDiscovery_def Let_def rssi_fixed_def live_peers_def)
next
  case (r_callback st callback)
  then show ?case by (simp add: setDataCallback_def rssi_fixed_def live_peers_def)
next
  case (r_gateway st gateway)
  then show ?case by (simp add: setGatewayMode_def rssi_fixed_def live_peers_def)
qed

text \<open>
  C10. In every reachable state every entry of the peer table (the entries below
  \<^verbatim>\<open>peerCount\<close>) has the signal strength -50: \<open>processMessage\<close> inserts the constant, the
  link layer's reading never enters the engine, and no operation writes the field of an
  entry afterwards.
\<close>

theorem rssi_never_measured:
  assumes "reachable st"
  shows "\<forall>p \<in> set (live_peers st). sint (rssi p) = - 50"
proof
  fix p assume "p \<in> set (live_peers st)"
  with reachable_rssi [OF assms] have "rssi p = - 50" by (simp add: rssi_fixed_def)
  then show "sint (rssi p) = - 50" by simp
qed

theorem rssi_never_measured_witness:
  "reachable nodeA_knows_B \<and> live_peers nodeA_knows_B = [peer_at macB 5 False] \<and>
   sint (rssi (peer_at macB 5 False)) = - 50"
proof -
  have l: "live_peers nodeA_knows_B = [peer_at macB 5 False]"
    by (simp add: nodeA_knows_B_state live_peers_def take_Suc_update_same)
  from rssi_never_measured [OF nodeA_knows_B_reachable] l nodeA_knows_B_reachable
  show ?thesis by simp
qed

subsection \<open>Route updates\<close>

lemma MAC_EQUAL_COPY: "MAC_EQUAL (MAC_COPY d) d"
  by (simp add: MAC_EQUAL_def MAC_COPY_def)

lemma findRoute_Some:
  "findRoute st d = Some k \<Longrightarrow> int k < routeCount st \<and> MAC_EQUAL (destination (routingTable st ! k)) d"
  using findRoute_loop_Some [of 0 "routingTable st" "routeCount st" d k]
  by (simp add: findRoute_def)

lemma findRoute_same_destinations:
  assumes "findRoute st d = Some k"
    and "routeCount st' = routeCount st"
    and "\<And>j. j \<le> k \<Longrightarrow> destination (routingTable st' ! j) = destination (routingTable st ! j)"
  shows "findRoute st' d = Some k"
proof -
  from assms(1) have f: "findRoute_loop (routingTable st) (routeCount st) d 0 = Some k"
    by (simp add: findRoute_def)
  note s = findRoute_loop_Some [OF _ f]
  have "findRoute_loop (routingTable st') (routeCount st) d 0 = Some k"
  proof (rule findRoute_loop_first)
    show "MAC_EQUAL (destination (routingTable st' ! k)) d" using s assms(3) [of k] by simp
    show "\<not> MAC_EQUAL (destination (routingTable st' ! j)) d" if "0 \<le> int j" "j < k" for j
      using findRoute_loop_before [OF _ f, of j] that assms(3) [of j] by simp
  qed (use s in simp_all)
  with assms(2) show ?thesis by (simp add: findRoute_def)
qed

lemma updateRoute_existing:
  assumes "findRoute st d = Some k" and "k < length (routingTable st)"
  shows "findRoute (updateRoute now d nh h st) d = Some k"
    and "routingTable (updateRoute now d nh h st) ! k =
           (routingTable st ! k)\<lparr>
              nextHop := (if h < RouteEntry.hopCount (routingTable st ! k) then MAC_COPY nh
                          else nextHop (routingTable st ! k)),
              RouteEntry.hopCount := (if h < RouteEntry.hopCount (routingTable st ! k) then h
                          else RouteEntry.hopCount (routingTable st ! k)),
              lastUpdated := now\<rparr>"
    and "routeCount (updateRoute now d nh h st) = routeCount st"
    and "\<And>j. j \<noteq> k \<Longrightarrow> routingTable (updateRoute now d nh h st) ! j = routingTable st ! j"
proof -
  show e: "routingTable (updateRoute now d nh h st) ! k =
           (routingTable st ! k)\<lparr>
              nextHop := (if h < RouteEntry.hopCount (routingTable st ! k) then MAC_COPY nh
                          else nextHop (routingTable st ! k)),
              RouteEntry.hopCount := (if h < RouteEntry.hopCount (routingTable st ! k) then h
                          else RouteEntry.hopCount (routingTable st ! k)),
              lastUpdated := now\<rparr>"
    using assms by (simp add: updateRoute_def Let_def)
  show c: "routeCount (updateRoute now d nh h st) = routeCount st"
    using assms by (simp add: updateRoute_def Let_def)
  show o: "\<And>j. j \<noteq> k \<Longrightarrow> routingTable (updateRoute now d nh h st) ! j = routingTable st ! j"
    using assms by (simp add: updateRoute_def Let_def)
  show "findRoute (updateRoute now d nh h st) d = Some k"
  proof (rule findRoute_same_destinations [OF assms(1) c])
    fix j assume "j \<le> k"
    show "destination (routingTable (updateRoute now d nh h st) ! j) =
          destination (routingTable st ! j)"
      by (cases "j = k") (simp_all add: e o)
  qed
qed

lemma updateRoute_new:
  assumes "findRoute st d = None" and "0 \<le> routeCount st" and "routeCount st < MAX_PEERS"
    and "int (length (routingTable st)) = MAX_PEERS"
  shows "findRoute (updateRoute now d nh h st) d = Some (nat (routeCount st))"
    and "routingTable (updateRoute now d nh h st) ! nat (routeCount st) =
           \<lparr>destination = MAC_COPY d, nextHop = MAC_COPY nh, RouteEntry.hopCount = h,
            lastUpdated = now\<rparr>"
    and "routeCount (updateRoute now d nh h st) = routeCount st + 1"
proof -
  let ?n = "nat (routeCount st)"
  from assms have nl: "?n < length (routingTable st)" by simp
  show e: "routingTable (updateRoute now d nh h st) ! ?n =
           \<lparr>destination = MAC_COPY d, nextHop = MAC_COPY nh, RouteEntry.hopCount = h,
            lastUpdated = now\<rparr>"
    using assms nl by (simp add: updateRoute_def)
  show c: "routeCount (updateRoute now d nh h st) = routeCount st + 1"
    using assms by (simp add: updateRoute_def)
  have o: "routingTable (updateRoute now d nh h st) ! j = routingTable st ! j" if "j < ?n" for j
    using assms that by (simp add: updateRoute_def)
  from assms(1) have f: "findRoute_loop (routingTable st) (routeCount st) d 0 = None"
    by (simp add: findRoute_def)
  have "findRoute_loop (routingTable (updateRoute now d nh h st)) (routeCount st + 1) d 0 = Some ?n"
  proof (rule findRoute_loop_first)
    show "MAC_EQUAL (destination (routingTable (updateRoute now d nh h st) ! ?n)) d"
      by (simp add: e MAC_EQUAL_COPY)
    show "\<not> MAC_EQUAL (destination (routingTable (updateRoute now d nh h st) ! j)) d"
      if "0 \<le> int j" "j < ?n" for j
      using findRoute_loop_None [OF _ f, of j] that o [of j] by simp
  qed (use assms in simp_all)
  with c show "findRoute (updateRoute now d nh h st) d = Some ?n" by (simp add: findRoute_def)
qed

lemma nodeA_route_D_bounded: "bounded nodeA_route_D"
  by (simp add: bounded_def nodeA_route_D_def nodeA_def boot_state_def MAX_PEERS_def)

lemma nodeA_route_D_find: "findRoute nodeA_route_D macD = Some 0"
  by (simp add: nodeA_route_D_def findRoute_def findRoute_loop.simps route_to_def MAC_EQUAL_def)

lemma nodeA_bounded: "bounded nodeA"
  by (simp add: bounded_def nodeA_def boot_state_def MAX_PEERS_def)

lemma nodeA_no_route: "findRoute nodeA d = None"
  by (simp add: nodeA_def boot_state_def findRoute_def findRoute_loop.simps)

text \<open>
  C5 (amended). In a state within the table bounds, for a destination \<open>d\<close> that has a
  routing entry, \<^verbatim>\<open>updateRoute(d, nh2, h2)\<close> overwrites the stored next hop and hop count
  only when \<open>h2\<close> is strictly less than the stored hop count, and sets \<^verbatim>\<open>lastUpdated\<close>
  to the current time in all cases. Consequently, when \<^verbatim>\<open>updateRoute(d, nh1, h1)\<close> itself
  stores \<open>nh1\<close> (\<open>d\<close> had no entry and the table had room, or \<open>h1\<close> was strictly less
  than the stored hop count), a following \<^verbatim>\<open>updateRoute(d, nh2, h2)\<close> with \<open>h2 \<ge> h1\<close>
  leaves the stored next hop \<open>nh1\<close>. When \<open>d\<close> already has an entry whose hop count is
  at most \<open>h1\<close>, both updates leave that entry's next hop in place.
\<close>

theorem updateRoute_strict:
  assumes "bounded st"
  shows "(findRoute st d = Some k \<longrightarrow>
            findRoute (updateRoute now d nh2 h2 st) d = Some k \<and>
            nextHop (routingTable (updateRoute now d nh2 h2 st) ! k) =
              (if h2 < RouteEntry.hopCount (routingTable st ! k) then MAC_COPY nh2
               else nextHop (routingTable st ! k)) \<and>
            RouteEntry.hopCount (routingTable (updateRoute now d nh2 h2 st) ! k) =
              (if h2 < RouteEntry.hopCount (routingTable st ! k) then h2
               else RouteEntry.hopCount (routingTable st ! k)) \<and>
            lastUpdated (routingTable (updateRoute now d nh2 h2 st) ! k) = now \<and>
            routeCount (updateRoute now d nh2 h2 st) = routeCount st) \<and>
         (h1 \<le> h2 \<and>
          (findRoute st d = None \<and> routeCount st < MAX_PEERS \<or>
           findRoute st d = Some k \<and> h1 < RouteEntry.hopCount (routingTable st ! k)) \<longrightarrow>
            (\<exists>k'. findRoute (updateRoute t2 d nh2 h2 (updateRoute t1 d nh1 h1 st)) d = Some k' \<and>
               nextHop (routingTable (updateRoute t2 d nh2 h2 (updateRoute t1 d nh1 h1 st)) ! k')
                 = MAC_COPY nh1 \<and>
               RouteEntry.hopCount
                 (routingTable (updateRoute t2 d nh2 h2 (updateRoute t1 d nh1 h1 st)) ! k') = h1 \<and>
               lastUpdated (routingTable (updateRoute t2 d nh2 h2 (updateRoute t1 d nh1 h1 st)) ! k')
                 = t2)) \<and>
         (h1 \<le> h2 \<and> findRoute st d = Some k \<and> RouteEntry.hopCount (routingTable st ! k) \<le> h1 \<longrightarrow>
            findRoute (updateRoute t2 d nh2 h2 (updateRoute t1 d nh1 h1 st)) d = Some k \<and>
            nextHop (routingTable (updateRoute t2 d nh2 h2 (updateRoute t1 d nh1 h1 st)) ! k) =
              nextHop (routingTable st ! k))"
proof -
  let ?tbl = "routingTable st"
  let ?s1 = "updateRoute t1 d nh1 h1 st"
  let ?s2 = "updateRoute t2 d nh2 h2 ?s1"
  from assms have len: "int (length ?tbl) = MAX_PEERS" and rc: "0 \<le> routeCount st"
    by (simp_all add: bounded_def)
  have len1: "length (routingTable ?s1) = length ?tbl"
    using updateRoute_count [of t1 d nh1 h1 st] by simp
  have inb: "k < length ?tbl" if "findRoute st d = Some k" for k
    using findRoute_Some [OF that] assms by (simp add: bounded_def)
  have a: "findRoute st d = Some k \<longrightarrow>
            findRoute (updateRoute now d nh2 h2 st) d = Some k \<and>
            nextHop (routingTable (updateRoute now d nh2 h2 st) ! k) =
              (if h2 < RouteEntry.hopCount (?tbl ! k) then MAC_COPY nh2 else nextHop (?tbl ! k)) \<and>
            RouteEntry.hopCount (routingTable (updateRoute now d nh2 h2 st) ! k) =
              (if h2 < RouteEntry.hopCount (?tbl ! k) then h2 else RouteEntry.hopCount (?tbl ! k)) \<and>
            lastUpdated (routingTable (updateRoute now d nh2 h2 st) ! k) = now \<and>
            routeCount (updateRoute now d nh2 h2 st) = routeCount st"
  proof
    assume f: "findRoute st d = Some k"
    from updateRoute_existing(1,2,3) [OF f inb [OF f], of now nh2 h2]
    show "findRoute (updateRoute now d nh2 h2 st) d = Some k \<and>
            nextHop (routingTable (updateRoute now d nh2 h2 st) ! k) =
              (if h2 < RouteEntry.hopCount (?tbl ! k) then MAC_COPY nh2 else nextHop (?tbl ! k)) \<and>
            RouteEntry.hopCount (routingTable (updateRoute now d nh2 h2 st) ! k) =
              (if h2 < RouteEntry.hopCount (?tbl ! k) then h2 else RouteEntry.hopCount (?tbl ! k)) \<and>
            lastUpdated (routingTable (updateRoute now d nh2 h2 st) ! k) = now \<and>
            routeCount (updateRoute now d nh2 h2 st) = routeCount st"
      by simp
  qed
  have stored: "\<exists>k'. findRoute ?s2 d = Some k' \<and>
        nextHop (routingTable ?s2 ! k') = MAC_COPY nh1 \<and>
        RouteEntry.hopCount (routingTable ?s2 ! k') = h1 \<and>
        lastUpdated (routingTable ?s2 ! k') = t2"
    if le: "h1 \<le> h2" and f1: "findRoute ?s1 d = Some j"
      and n1: "nextHop (routingTable ?s1 ! j) = MAC_COPY nh1"
      and c1: "RouteEntry.hopCount (routingTable ?s1 ! j) = h1"
      and jl: "j < length ?tbl" for j
  proof -
    from jl len1 have "j < length (routingTable ?s1)" by simp
    from updateRoute_existing(1,2) [OF f1 this, of t2 nh2 h2] le n1 c1
    have "findRoute ?s2 d = Some j \<and>
        nextHop (routingTable ?s2 ! j) = MAC_COPY nh1 \<and>
        RouteEntry.hopCount (routingTable ?s2 ! j) = h1 \<and>
        lastUpdated (routingTable ?s2 ! j) = t2"
      by (simp add: not_less [symmetric])
    then show ?thesis by blast
  qed
  have b: "h1 \<le> h2 \<and>
          (findRoute st d = None \<and> routeCount st < MAX_PEERS \<or>
           findRoute st d = Some k \<and> h1 < RouteEntry.hopCount (?tbl ! k)) \<longrightarrow>
            (\<exists>k'. findRoute ?s2 d = Some k' \<and>
               nextHop (routingTable ?s2 ! k') = MAC_COPY nh1 \<and>
               RouteEntry.hopCount (routingTable ?s2 ! k') = h1 \<and>
               lastUpdated (routingTable ?s2 ! k') = t2)"
  proof (intro impI, elim conjE disjE)
    assume le: "h1 \<le> h2" and f: "findRoute st d = None" and room: "routeCount st < MAX_PEERS"
    from room len rc have "nat (routeCount st) < length ?tbl" by simp
    with updateRoute_new(1,2) [OF f rc room len, of t1 nh1 h1] le
    show "\<exists>k'. findRoute ?s2 d = Some k' \<and>
               nextHop (routingTable ?s2 ! k') = MAC_COPY nh1 \<and>
               RouteEntry.hopCount (routingTable ?s2 ! k') = h1 \<and>
               lastUpdated (routingTable ?s2 ! k') = t2"
      by (intro stored [of "nat (routeCount st)"]) simp_all
  next
    assume le: "h1 \<le> h2" and f: "findRoute st d = Some k"
      and better: "h1 < RouteEntry.hopCount (?tbl ! k)"
    from updateRoute_existing(1,2) [OF f inb [OF f], of t1 nh1 h1] better le inb [OF f]
    show "\<exists>k'. findRoute ?s2 d = Some k' \<and>
               nextHop (routingTable ?s2 ! k') = MAC_COPY nh1 \<and>
               RouteEntry.hopCount (routingTable ?s2 ! k') = h1 \<and>
               lastUpdated (routingTable ?s2 ! k') = t2"
      by (intro stored [of k]) simp_all
  qed
  have c: "h1 \<le> h2 \<and> findRoute st d = Some k \<and> RouteEntry.hopCount (?tbl ! k) \<le> h1 \<longrightarrow>
            findRoute ?s2 d = Some k \<and> nextHop (routingTable ?s2 ! k) = nextHop (?tbl ! k)"
  proof (intro impI, elim conjE)
    assume le: "h1 \<le> h2" and f: "findRoute st d = Some k"
      and worse: "RouteEntry.hopCount (?tbl ! k) \<le> h1"
    note u1 = updateRoute_existing(1,2) [OF f inb [OF f], of t1 nh1 h1]
    from inb [OF f] len1 have "k < length (routingTable ?s1)" by simp
    note u2 = updateRoute_existing(1,2) [OF u1(1) this, of t2 nh2 h2]
    from u1 u2 le worse
    show "findRoute ?s2 d = Some k \<and> nextHop (routingTable ?s2 ! k) = nextHop (?tbl ! k)"
      by (auto simp: not_less [symmetric])
  qed
  from a b c show ?thesis by blast
qed

theorem updateRoute_strict_witness:
  "bounded nodeA_route_D \<and> findRoute nodeA_route_D macD = Some 0 \<and>
   routingTable nodeA_route_D ! 0 = route_to macD macB 3 0 \<and>
   nextHop (routingTable (updateRoute 7 macD macC 2 nodeA_route_D) ! 0) = macC \<and>
   RouteEntry.hopCount (routingTable (updateRoute 7 macD macC 2 nodeA_route_D) ! 0) = 2 \<and>
   lastUpdated (routingTable (updateRoute 7 macD macC 2 nodeA_route_D) ! 0) = 7 \<and>
   nextHop (routingTable (updateRoute 7 macD macC 3 nodeA_route_D) ! 0) = macB \<and>
   RouteEntry.hopCount (routingTable (updateRoute 7 macD macC 3 nodeA_route_D) ! 0) = 3 \<and>
   lastUpdated (routingTable (updateRoute 7 macD macC 3 nodeA_route_D) ! 0) = 7 \<and>
   (2 :: u8) \<le> 2 \<and> (2 :: u8) < 3 \<and>
   (\<exists>k'. findRoute (updateRoute 9 macD macA 2 (updateRoute 8 macD macC 2 nodeA_route_D)) macD
           = Some k' \<and>
         nextHop (routingTable (updateRoute 9 macD macA 2 (updateRoute 8 macD macC 2 nodeA_route_D))
           ! k') = macC) \<and>
   bounded nodeA \<and> findRoute nodeA macD = None \<and> routeCount nodeA < MAX_PEERS \<and>
   (\<exists>k'. findRoute (updateRoute 9 macD macC 2 (updateRoute 8 macD macB 2 nodeA)) macD = Some k' \<and>
         nextHop (routingTable (updateRoute 9 macD macC 2 (updateRoute 8 macD macB 2 nodeA)) ! k')
           = macB) \<and>
   (3 :: u8) \<le> 5 \<and>
   nextHop (routingTable (updateRoute 9 macD macA 5 (updateRoute 8 macD macC 3 nodeA_route_D)) ! 0)
     = macB"
proof -
  have e: "routingTable nodeA_route_D ! 0 = route_to macD macB 3 0"
    by (simp add: nodeA_route_D_def)
  have cp: "MAC_COPY macA = macA" "MAC_COPY macB = macB" "MAC_COPY macC = macC"
    by (simp_all add: MAC_COPY_def macA_def macB_def macC_def)
  have room: "routeCount nodeA < MAX_PEERS"
    by (simp add: nodeA_def boot_state_def MAX_PEERS_def)
  note d = nodeA_route_D_bounded nodeA_route_D_find
  have one: "nextHop (routingTable (updateRoute 7 macD macC 2 nodeA_route_D) ! 0) = macC \<and>
     RouteEntry.hopCount (routingTable (updateRoute 7 macD macC 2 nodeA_route_D) ! 0) = 2 \<and>
     lastUpdated (routingTable (updateRoute 7 macD macC 2 nodeA_route_D) ! 0) = 7"
    using updateRoute_strict [OF d(1), where d = macD and k = 0 and now = 7 and ?nh2.0 = macC
        and ?h2.0 = 2 and ?h1.0 = 0 and ?t1.0 = 0 and ?t2.0 = 0 and ?nh1.0 = macA] d(2) e cp
    by (simp add: route_to_def)
  have one': "nextHop (routingTable (updateRoute 7 macD macC 3 nodeA_route_D) ! 0) = macB \<and>
     RouteEntry.hopCount (routingTable (updateRoute 7 macD macC 3 nodeA_route_D) ! 0) = 3 \<and>
     lastUpdated (routingTable (updateRoute 7 macD macC 3 nodeA_route_D) ! 0) = 7"
    using updateRoute_strict [OF d(1), where d = macD and k = 0 and now = 7 and ?nh2.0 = macC
        and ?h2.0 = 3 and ?h1.0 = 0 and ?t1.0 = 0 and ?t2.0 = 0 and ?nh1.0 = macA] d(2) e cp
    by (simp add: route_to_def)
  have two: "\<exists>k'. findRoute (updateRoute 9 macD macA 2 (updateRoute 8 macD macC 2 nodeA_route_D)) macD
           = Some k' \<and>
         nextHop (routingTable (updateRoute 9 macD macA 2 (updateRoute 8 macD macC 2 nodeA_route_D))
           ! k') = macC"
    using updateRoute_strict [OF d(1), where d = macD and k = 0 and ?h1.0 = 2 and ?h2.0 = 2
        and ?t1.0 = 8 and ?t2.0 = 9 and ?nh1.0 = macC and ?nh2.0 = macA and now = 0] d(2) e cp
    by (auto simp: route_to_def)
  have two': "\<exists>k'. findRoute (updateRoute 9 macD macC 2 (updateRoute 8 macD macB 2 nodeA)) macD = Some k' \<and>
         nextHop (routingTable (updateRoute 9 macD macC 2 (updateRoute 8 macD macB 2 nodeA)) ! k')
           = macB"
    using updateRoute_strict [OF nodeA_bounded, where d = macD and ?h1.0 = 2 and ?h2.0 = 2
        and ?t1.0 = 8 and ?t2.0 = 9 and ?nh1.0 = macB and ?nh2.0 = macC and now = 0 and k = 0]
      nodeA_no_route [of macD] room cp
    by auto
  have three: "nextHop (routingTable (updateRoute 9 macD macA 5 (updateRoute 8 macD macC 3 nodeA_route_D)) ! 0)
     = macB"
    using updateRoute_strict [OF d(1), where d = macD and k = 0 and ?h1.0 = 3 and ?h2.0 = 5
        and ?t1.0 = 8 and ?t2.0 = 9 and ?nh1.0 = macC and ?nh2.0 = macA and now = 0] d(2) e cp
    by (simp add: route_to_def)
  from d e one one' two two' three nodeA_bounded nodeA_no_route [of macD] room
  show ?thesis by simp
qed

text \<open>
  C5 as stated fails for a destination whose entry is already at least as good as the
  first update: with the route D via B at three hops, \<^verbatim>\<open>updateRoute(D, C, 3)\<close> followed by
  \<^verbatim>\<open>updateRoute(D, A, 5)\<close> leaves the next hop B, not C.
\<close>

theorem route_strictness_counterexample:
  "findRoute nodeA_route_D macD = Some 0 \<and>
   nextHop (routingTable nodeA_route_D ! 0) = macB \<and>
   RouteEntry.hopCount (routingTable nodeA_route_D ! 0) = 3 \<and> (3 :: u8) \<le> 5 \<and>
   findRoute (updateRoute 9 macD macA 5 (updateRoute 8 macD macC 3 nodeA_route_D)) macD = Some 0 \<and>
   nextHop (routingTable (updateRoute 9 macD macA 5 (updateRoute 8 macD macC 3 nodeA_route_D)) ! 0)
     = macB \<and>
   macB \<noteq> MAC_COPY macC"
  by (simp add: nodeA_route_D_def nodeA_def boot_state_def updateRoute_def findRoute_def
      findRoute_loop.simps route_to_def MAC_EQUAL_def MAC_COPY_def macA_def macB_def macC_def
      macD_def MAX_PEERS_def Let_def)

subsection \<open>Hop counts of the frames sent\<close>

lemma hop_inc_discovery: "(h :: u8) < 3 \<Longrightarrow> h + 1 \<le> 5"
  by unat_arith

lemma hop_inc_forward: "(h :: u8) < 5 \<Longrightarrow> h + 1 \<le> 5"
  by unat_arith

lemma hop_limit_cases: "(5 :: u8) \<le> h \<Longrightarrow> \<not> h < 3 \<and> \<not> h < 5"
  by unat_arith

lemma dispatch_sent_hops:
  "sent_hops (snd (dispatch now msg st)) =
     (if type msg = MSG_DISCOVERY
      then (if MeshMessage.hopCount msg < 3 then [MeshMessage.hopCount msg + 1] else [])
      else if type msg = MSG_DATA
      then (if \<not> MAC_EQUAL (dstMac msg) (myMac st) \<and> MeshMessage.hopCount msg < 5
            then [MeshMessage.hopCount msg + 1] else [])
      else if type msg = MSG_ROUTE_REQUEST
      then (if findRoute st (data msg) \<noteq> None \<or> MAC_EQUAL (data msg) (myMac st) then [0]
            else if MeshMessage.hopCount msg < 5 then [MeshMessage.hopCount msg + 1] else [])
      else [])"
  by (simp add: dispatch_def handleDiscovery_def handleData_def handleRouteRequest_def
      handleRouteReply_def sendUnicast_def sendBroadcast_def Let_def consts_defs
      split: option.splits)

lemma findRoute_cong:
  "routingTable st' = routingTable st \<Longrightarrow> routeCount st' = routeCount st \<Longrightarrow>
   findRoute st' d = findRoute st d"
  by (simp add: findRoute_def)

lemma processMessage_sent_hops:
  "sent_hops (snd (processMessage now msg st)) =
     (if MAC_EQUAL (srcMac msg) (myMac st) then []
      else if type msg = MSG_DISCOVERY
      then (if MeshMessage.hopCount msg < 3 then [MeshMessage.hopCount msg + 1] else [])
      else if type msg = MSG_DATA
      then (if \<not> MAC_EQUAL (dstMac msg) (myMac st) \<and> MeshMessage.hopCount msg < 5
            then [MeshMessage.hopCount msg + 1] else [])
      else if type msg = MSG_ROUTE_REQUEST
      then (if findRoute st (data msg) \<noteq> None \<or> MAC_EQUAL (data msg) (myMac st) then [0]
            else if MeshMessage.hopCount msg < 5 then [MeshMessage.hopCount msg + 1] else [])
      else [])"
proof -
  have "findRoute (peer_update now msg st) (data msg) = findRoute st (data msg)"
    by (rule findRoute_cong) (simp_all add: peer_update_other)
  then show ?thesis
    by (simp add: processMessage_steps dispatch_sent_hops peer_update_other)
qed

lemma dispatch_sent_frames:
  "sent_frames (snd (dispatch now msg st)) =
     (if type msg = MSG_DISCOVERY
      then (if MeshMessage.hopCount msg < 3
            then [\<lparr>type = MSG_DISCOVERY, srcMac = MAC_COPY (myMac st),
                   dstMac = MAC_COPY (srcMac msg),
                   MeshMessage.hopCount = MeshMessage.hopCount msg + 1,
                   sequenceNum = sequenceNumber st, dataLen = 1,
                   data = [if mesh_state.isGateway st then 1 else 0]\<rparr>]
            else [])
      else if type msg = MSG_DATA
      then (if \<not> MAC_EQUAL (dstMac msg) (myMac st) \<and> MeshMessage.hopCount msg < 5
            then [msg\<lparr>MeshMessage.hopCount := MeshMessage.hopCount msg + 1\<rparr>] else [])
      else if type msg = MSG_ROUTE_REQUEST
      then (if findRoute st (data msg) \<noteq> None \<or> MAC_EQUAL (data msg) (myMac st)
            then [\<lparr>type = MSG_ROUTE_REPLY, srcMac = MAC_COPY (myMac st),
                   dstMac = MAC_COPY (srcMac msg), MeshMessage.hopCount = 0,
                   sequenceNum = sequenceNumber st, dataLen = 7,
                   data = MAC_COPY (data msg) @
                     [case findRoute st (data msg) of
                        Some k \<Rightarrow> RouteEntry.hopCount (routingTable st ! k) + 1
                      | None \<Rightarrow> 1]\<rparr>]
            else if MeshMessage.hopCount msg < 5
            then [msg\<lparr>MeshMessage.hopCount := MeshMessage.hopCount msg + 1\<rparr>] else [])
      else [])"
  by (simp add: dispatch_def handleDiscovery_def handleData_def handleRouteRequest_def
      handleRouteReply_def sendUnicast_def sendBroadcast_def Let_def consts_defs
      split: option.splits)

lemma processMessage_sent_frames:
  "sent_frames (snd (processMessage now msg st)) =
     (if MAC_EQUAL (srcMac msg) (myMac st) then []
      else if type msg = MSG_DISCOVERY
      then (if MeshMessage.hopCount msg < 3
            then [\<lparr>type = MSG_DISCOVERY, srcMac = MAC_COPY (myMac st),
                   dstMac = MAC_COPY (srcMac msg),
                   MeshMessage.hopCount = MeshMessage.hopCount msg + 1,
                   sequenceNum = sequenceNumber st, dataLen = 1,
                   data = [if mesh_state.isGateway st then 1 else 0]\<rparr>]
            else [])
      else if type msg = MSG_DATA
      then (if \<not> MAC_EQUAL (dstMac msg) (myMac st) \<and> MeshMessage.hopCount msg < 5
            then [msg\<lparr>MeshMessage.hopCount := MeshMessage.hopCount msg + 1\<rparr>] else [])
      else if type msg = MSG_ROUTE_REQUEST
      then (if findRoute st (data msg) \<noteq> None \<or> MAC_EQUAL (data msg) (myMac st)
            then [\<lparr>type = MSG_ROUTE_REPLY, srcMac = MAC_COPY (myMac st),
                   dstMac = MAC_COPY (srcMac msg), MeshMessage.hopCount = 0,
                   sequenceNum = sequenceNumber st, dataLen = 7,
                   data = MAC_COPY (data msg) @
                     [case findRoute st (data msg) of
                        Some k \<Rightarrow> RouteEntry.hopCount (routingTable st ! k) + 1
                      | None \<Rightarrow> 1]\<rparr>]
            else if MeshMessage.hopCount msg < 5
            then [msg\<lparr>MeshMessage.hopCount := MeshMessage.hopCount msg + 1\<rparr>] else [])
      else [])"
proof -
  have "findRoute (peer_update now msg st) (data msg) = findRoute st (data msg)"
    by (rule findRoute_cong) (simp_all add: peer_update_other)
  then show ?thesis
    by (simp add: processMessage_steps dispatch_sent_frames peer_update_other
        cong: option.case_cong)
qed

text \<open>A reply of the node's own is never the received frame sent on: its source address
  is the node's, and the received frame came from another node.\<close>

lemma own_source_differs:
  "\<not> MAC_EQUAL (srcMac msg) (myMac st) \<Longrightarrow> srcMac msg \<noteq> MAC_COPY (myMac st)"
  by (auto simp: MAC_EQUAL_def MAC_COPY_def)

text \<open>
  C1 (amended). Processing a received frame never hands the link driver a frame whose hop
  count is greater than \<^verbatim>\<open>MAX_HOP_COUNT\<close> (5). The received frame is forwarded, that is sent
  on with its hop count incremented, exactly when it comes from another node with hop count
  below 5 and is a DATA frame not addressed to the node, or a ROUTE_REQUEST for a
  destination the node neither is nor has a route to; the forwarded frame is then the only
  frame sent, so a frame received with hop count 4 goes out with hop count 5. A frame
  received with hop count 5 or more is never forwarded: processing it sends nothing, except
  a ROUTE_REPLY of the node's own, with hop count 0, in answer to a ROUTE_REQUEST from
  another node for the node itself or for a destination it has a route to.
\<close>

theorem forwarded_hop_count_bounded:
  "(\<forall>h \<in> set (sent_hops (snd (processMessage now msg st))). h \<le> MAX_HOP_COUNT) \<and>
   (msg\<lparr>MeshMessage.hopCount := MeshMessage.hopCount msg + 1\<rparr>
      \<in> set (sent_frames (snd (processMessage now msg st)))) =
     (MeshMessage.hopCount msg < MAX_HOP_COUNT \<and> \<not> MAC_EQUAL (srcMac msg) (myMac st) \<and>
      (type msg = MSG_DATA \<and> \<not> MAC_EQUAL (dstMac msg) (myMac st) \<or>
       type msg = MSG_ROUTE_REQUEST \<and> findRoute st (data msg) = None \<and>
         \<not> MAC_EQUAL (data msg) (myMac st))) \<and>
   (MeshMessage.hopCount msg < MAX_HOP_COUNT \<and> \<not> MAC_EQUAL (srcMac msg) (myMac st) \<and>
    (type msg = MSG_DATA \<and> \<not> MAC_EQUAL (dstMac msg) (myMac st) \<or>
     type msg = MSG_ROUTE_REQUEST \<and> findRoute st (data msg) = None \<and>
       \<not> MAC_EQUAL (data msg) (myMac st)) \<longrightarrow>
      sent_frames (snd (processMessage now msg st)) =
        [msg\<lparr>MeshMessage.hopCount := MeshMessage.hopCount msg + 1\<rparr>]) \<and>
   (MAX_HOP_COUNT \<le> MeshMessage.hopCount msg \<longrightarrow>
      sent_frames (snd (processMessage now msg st)) =
        (if \<not> MAC_EQUAL (srcMac msg) (myMac st) \<and> type msg = MSG_ROUTE_REQUEST \<and>
            (findRoute st (data msg) \<noteq> None \<or> MAC_EQUAL (data msg) (myMac st))
         then [\<lparr>type = MSG_ROUTE_REPLY, srcMac = MAC_COPY (myMac st),
                dstMac = MAC_COPY (srcMac msg), MeshMessage.hopCount = 0,
                sequenceNum = sequenceNumber st, dataLen = 7,
                data = MAC_COPY (data msg) @
                  [case findRoute st (data msg) of
                     Some k \<Rightarrow> RouteEntry.hopCount (routingTable st ! k) + 1
                   | None \<Rightarrow> 1]\<rparr>]
         else []))"
proof -
  let ?fwd = "msg\<lparr>MeshMessage.hopCount := MeshMessage.hopCount msg + 1\<rparr>"
  let ?can = "MeshMessage.hopCount msg < MAX_HOP_COUNT \<and> \<not> MAC_EQUAL (srcMac msg) (myMac st) \<and>
      (type msg = MSG_DATA \<and> \<not> MAC_EQUAL (dstMac msg) (myMac st) \<or>
       type msg = MSG_ROUTE_REQUEST \<and> findRoute st (data msg) = None \<and>
         \<not> MAC_EQUAL (data msg) (myMac st))"
  have a: "\<forall>h \<in> set (sent_hops (snd (processMessage now msg st))). h \<le> MAX_HOP_COUNT"
    by (simp add: processMessage_sent_hops MAX_HOP_COUNT_def hop_inc_discovery hop_inc_forward)
  have c: "?can \<longrightarrow> sent_frames (snd (processMessage now msg st)) = [?fwd]"
    by (auto simp: processMessage_sent_frames MAX_HOP_COUNT_def MSG_DATA_def MSG_DISCOVERY_def
        MSG_ROUTE_REQUEST_def)
  have b: "(?fwd \<in> set (sent_frames (snd (processMessage now msg st)))) = ?can"
  proof
    assume "?can"
    with c show "?fwd \<in> set (sent_frames (snd (processMessage now msg st)))" by simp
  next
    assume m: "?fwd \<in> set (sent_frames (snd (processMessage now msg st)))"
    then have ns: "\<not> MAC_EQUAL (srcMac msg) (myMac st)"
      by (auto simp: processMessage_sent_frames split: if_splits)
    note src = own_source_differs [OF ns]
    have eqD: "?fwd = r \<Longrightarrow> srcMac r = srcMac msg \<and> type r = type msg" for r
      by auto
    from m ns show "?can"
      by (auto simp: processMessage_sent_frames MAX_HOP_COUNT_def MSG_DATA_def
          MSG_DISCOVERY_def MSG_ROUTE_REQUEST_def MSG_ROUTE_REPLY_def
          split: if_splits dest!: eqD simp: src src [symmetric])
  qed
  have d: "MAX_HOP_COUNT \<le> MeshMessage.hopCount msg \<longrightarrow>
      sent_frames (snd (processMessage now msg st)) =
        (if \<not> MAC_EQUAL (srcMac msg) (myMac st) \<and> type msg = MSG_ROUTE_REQUEST \<and>
            (findRoute st (data msg) \<noteq> None \<or> MAC_EQUAL (data msg) (myMac st))
         then [\<lparr>type = MSG_ROUTE_REPLY, srcMac = MAC_COPY (myMac st),
                dstMac = MAC_COPY (srcMac msg), MeshMessage.hopCount = 0,
                sequenceNum = sequenceNumber st, dataLen = 7,
                data = MAC_COPY (data msg) @
                  [case findRoute st (data msg) of
                     Some k \<Rightarrow> RouteEntry.hopCount (routingTable st ! k) + 1
                   | None \<Rightarrow> 1]\<rparr>]
         else [])"
    using hop_limit_cases [of "MeshMessage.hopCount msg"]
    by (auto simp: processMessage_sent_frames MAX_HOP_COUNT_def MSG_DATA_def MSG_DISCOVERY_def
        MSG_ROUTE_REQUEST_def)
  from a b c d show ?thesis by blast
qed

lemma data_B_to_C_hops: "sent_hops (snd (processMessage 5 data_B_to_C nodeA)) = [5]"
  by (simp add: data_B_to_C_def consts_defs engine_defs example_defs)

lemma request_B_for_D_hops: "sent_hops (snd (processMessage 5 request_B_for_D nodeA)) = [5]"
  by (simp add: request_B_for_D_def consts_defs engine_defs example_defs)

lemma request_B_for_A_hops: "sent_hops (snd (processMessage 5 request_B_for_A nodeA)) = [0]"
  by (simp add: request_B_for_A_def consts_defs engine_defs example_defs)

theorem forwarded_hop_count_bounded_witness:
  "sent_hops (snd (processMessage 5 data_B_to_C nodeA)) = [5] \<and> 5 \<le> MAX_HOP_COUNT \<and>
   MeshMessage.hopCount data_B_to_C < MAX_HOP_COUNT \<and>
   \<not> MAC_EQUAL (srcMac data_B_to_C) (myMac nodeA) \<and> type data_B_to_C = MSG_DATA \<and>
   \<not> MAC_EQUAL (dstMac data_B_to_C) (myMac nodeA) \<and>
   sent_frames (snd (processMessage 5 data_B_to_C nodeA)) =
     [data_B_to_C\<lparr>MeshMessage.hopCount := 5\<rparr>] \<and>
   MeshMessage.hopCount request_B_for_D < MAX_HOP_COUNT \<and>
   \<not> MAC_EQUAL (srcMac request_B_for_D) (myMac nodeA) \<and>
   type request_B_for_D = MSG_ROUTE_REQUEST \<and> findRoute nodeA (data request_B_for_D) = None \<and>
   \<not> MAC_EQUAL (data request_B_for_D) (myMac nodeA) \<and>
   sent_frames (snd (processMessage 5 request_B_for_D nodeA)) =
     [request_B_for_D\<lparr>MeshMessage.hopCount := 5\<rparr>] \<and>
   MAX_HOP_COUNT \<le> MeshMessage.hopCount request_B_for_A \<and>
   \<not> MAC_EQUAL (srcMac request_B_for_A) (myMac nodeA) \<and>
   type request_B_for_A = MSG_ROUTE_REQUEST \<and> MAC_EQUAL (data request_B_for_A) (myMac nodeA) \<and>
   sent_frames (snd (processMessage 5 request_B_for_A nodeA)) =
     [\<lparr>type = MSG_ROUTE_REPLY, srcMac = macA, dstMac = macB, MeshMessage.hopCount = 0,
       sequenceNum = 0, dataLen = 7, data = macA @ [1]\<rparr>] \<and>
   MAX_HOP_COUNT \<le> MeshMessage.hopCount data_B_to_C_late \<and>
   MeshMessage.hopCount data_B_to_C_late + 1 = 0 \<and>
   sent_frames (snd (processMessage 5 data_B_to_C_late nodeA)) = [] \<and>
   data_B_to_C_late\<lparr>MeshMessage.hopCount := 0\<rparr>
     \<notin> set (sent_frames (snd (processMessage 5 data_B_to_C_late nodeA)))"
proof -
  have f: "MeshMessage.hopCount data_B_to_C < MAX_HOP_COUNT"
    "\<not> MAC_EQUAL (srcMac data_B_to_C) (myMac nodeA)" "type data_B_to_C = MSG_DATA"
    "\<not> MAC_EQUAL (dstMac data_B_to_C) (myMac nodeA)"
    "MeshMessage.hopCount data_B_to_C + 1 = 5"
    by (simp_all add: data_B_to_C_def consts_defs example_defs)
  have g: "MeshMessage.hopCount request_B_for_D < MAX_HOP_COUNT"
    "\<not> MAC_EQUAL (srcMac request_B_for_D) (myMac nodeA)"
    "type request_B_for_D = MSG_ROUTE_REQUEST"
    "\<not> MAC_EQUAL (data request_B_for_D) (myMac nodeA)"
    "MeshMessage.hopCount request_B_for_D + 1 = 5"
    by (simp_all add: request_B_for_D_def consts_defs example_defs)
  have h: "MAX_HOP_COUNT \<le> MeshMessage.hopCount request_B_for_A"
    "\<not> MAC_EQUAL (srcMac request_B_for_A) (myMac nodeA)"
    "type request_B_for_A = MSG_ROUTE_REQUEST" "MAC_EQUAL (data request_B_for_A) (myMac nodeA)"
    "MAC_COPY (myMac nodeA) = macA" "MAC_COPY (srcMac request_B_for_A) = macB"
    "MAC_COPY (data request_B_for_A) = macA" "sequenceNumber nodeA = 0"
    by (simp_all add: request_B_for_A_def consts_defs example_defs)
  have l: "MAX_HOP_COUNT \<le> MeshMessage.hopCount data_B_to_C_late"
    "MeshMessage.hopCount data_B_to_C_late + 1 = 0"
    "type data_B_to_C_late \<noteq> MSG_ROUTE_REQUEST"
    "\<not> MeshMessage.hopCount data_B_to_C_late < MAX_HOP_COUNT"
    by (simp_all add: data_B_to_C_late_def consts_defs example_defs)
  note r = nodeA_no_route
  note t1 = forwarded_hop_count_bounded [of 5 data_B_to_C nodeA]
  note t2 = forwarded_hop_count_bounded [of 5 request_B_for_D nodeA]
  note t3 = forwarded_hop_count_bounded [of 5 request_B_for_A nodeA]
  note t4 = forwarded_hop_count_bounded [of 5 data_B_to_C_late nodeA]
  from t1 f(1-4) have "sent_frames (snd (processMessage 5 data_B_to_C nodeA)) =
      [data_B_to_C\<lparr>MeshMessage.hopCount := MeshMessage.hopCount data_B_to_C + 1\<rparr>]"
    by blast
  with f(5) have w1: "sent_frames (snd (processMessage 5 data_B_to_C nodeA)) =
      [data_B_to_C\<lparr>MeshMessage.hopCount := 5\<rparr>]"
    by simp
  from t1 data_B_to_C_hops have w0: "5 \<le> MAX_HOP_COUNT" by simp
  from t2 g(1-4) r [of "data request_B_for_D"]
  have "sent_frames (snd (processMessage 5 request_B_for_D nodeA)) =
      [request_B_for_D\<lparr>MeshMessage.hopCount := MeshMessage.hopCount request_B_for_D + 1\<rparr>]"
    by blast
  with g(5) have w2: "sent_frames (snd (processMessage 5 request_B_for_D nodeA)) =
      [request_B_for_D\<lparr>MeshMessage.hopCount := 5\<rparr>]"
    by simp
  from t3 h(1) have "sent_frames (snd (processMessage 5 request_B_for_A nodeA)) =
        (if \<not> MAC_EQUAL (srcMac request_B_for_A) (myMac nodeA) \<and>
            type request_B_for_A = MSG_ROUTE_REQUEST \<and>
            (findRoute nodeA (data request_B_for_A) \<noteq> None \<or>
             MAC_EQUAL (data request_B_for_A) (myMac nodeA))
         then [\<lparr>type = MSG_ROUTE_REPLY, srcMac = MAC_COPY (myMac nodeA),
                dstMac = MAC_COPY (srcMac request_B_for_A), MeshMessage.hopCount = 0,
                sequenceNum = sequenceNumber nodeA, dataLen = 7,
                data = MAC_COPY (data request_B_for_A) @
                  [case findRoute nodeA (data request_B_for_A) of
                     Some k \<Rightarrow> RouteEntry.hopCount (routingTable nodeA ! k) + 1
                   | None \<Rightarrow> 1]\<rparr>]
         else [])"
    by blast
  with h r [of "data request_B_for_A"]
  have w3: "sent_frames (snd (processMessage 5 request_B_for_A nodeA)) =
     [\<lparr>type = MSG_ROUTE_REPLY, srcMac = macA, dstMac = macB, MeshMessage.hopCount = 0,
       sequenceNum = 0, dataLen = 7, data = macA @ [1]\<rparr>]"
    by simp
  from t4 l(1) have "sent_frames (snd (processMessage 5 data_B_to_C_late nodeA)) =
        (if \<not> MAC_EQUAL (srcMac data_B_to_C_late) (myMac nodeA) \<and>
            type data_B_to_C_late = MSG_ROUTE_REQUEST \<and>
            (findRoute nodeA (data data_B_to_C_late) \<noteq> None \<or>
             MAC_EQUAL (data data_B_to_C_late) (myMac nodeA))
         then [\<lparr>type = MSG_ROUTE_REPLY, srcMac = MAC_COPY (myMac nodeA),
                dstMac = MAC_COPY (srcMac data_B_to_C_late), MeshMessage.hopCount = 0,
                sequenceNum = sequenceNumber nodeA, dataLen = 7,
                data = MAC_COPY (data data_B_to_C_late) @
                  [case findRoute nodeA (data data_B_to_C_late) of
                     Some k \<Rightarrow> RouteEntry.hopCount (routingTable nodeA ! k) + 1
                   | None \<Rightarrow> 1]\<rparr>]
         else [])"
    by blast
  with l(3) have w4: "sent_frames (snd (processMessage 5 data_B_to_C_late nodeA)) = []"
    by simp
  then have w5: "data_B_to_C_late\<lparr>MeshMessage.hopCount := 0\<rparr>
     \<notin> set (sent_frames (snd (processMessage 5 data_B_to_C_late nodeA)))"
    by simp
  from w0 w1 w2 w3 w4 w5 f g h l r [of "data request_B_for_D"] data_B_to_C_hops
  show ?thesis by simp
qed

text \<open>
  C1 as stated (no frame sent with hop count 5 or more) fails: node A forwards a DATA frame
  and a ROUTE_REQUEST that arrive with hop count 4, each with hop count 5.
\<close>

theorem bounded_forward_counterexample:
  "MeshMessage.hopCount data_B_to_C = 4 \<and>
   sent_hops (snd (processMessage 5 data_B_to_C nodeA)) = [5] \<and>
   MeshMessage.hopCount request_B_for_D = 4 \<and>
   sent_hops (snd (processMessage 5 request_B_for_D nodeA)) = [5] \<and>
   \<not> (5 < MAX_HOP_COUNT)"
  by (simp add: data_B_to_C_def request_B_for_D_def consts_defs engine_defs example_defs)

subsection \<open>The link-layer address of an originated frame\<close>

lemma findRoute_loop_MAC_COPY:
  "findRoute_loop tbl n (MAC_COPY d) i = findRoute_loop tbl n d i"
proof (induction tbl n d i rule: findRoute_loop.induct)
  case (1 tbl n d i)
  have m: "MAC_EQUAL x (MAC_COPY d) = MAC_EQUAL x d" for x
    by (simp add: MAC_EQUAL_def MAC_COPY_def)
  show ?case
  proof (cases "i < n \<and> \<not> MAC_EQUAL (destination (tbl ! nat i)) d")
    case True
    then have "findRoute_loop tbl n d i = findRoute_loop tbl n d (i + 1)"
      by (subst findRoute_loop.simps) simp
    moreover from True have "findRoute_loop tbl n (MAC_COPY d) i =
        findRoute_loop tbl n (MAC_COPY d) (i + 1)"
      by (subst findRoute_loop.simps) (simp add: m)
    ultimately show ?thesis using "1.IH" True by simp
  next
    case False
    then show ?thesis
      by (subst (1 2) findRoute_loop.simps) (auto simp: m)
  qed
qed

lemma findRoute_MAC_COPY: "findRoute st (MAC_COPY d) = findRoute st d"
  by (simp add: findRoute_def findRoute_loop_MAC_COPY)

lemma MAC_EQUAL_COPY_left: "MAC_EQUAL (MAC_COPY d) m = MAC_EQUAL d m"
  by (simp add: MAC_EQUAL_def MAC_COPY_def)

text \<open>
  C2 (amended). For every destination and payload, \<^verbatim>\<open>sendData\<close> hands the link driver one
  DATA frame (hop count 0, the next sequence number, the payload cut at 200 bytes). If the
  routing table holds an entry for the destination, the frame is addressed to that entry's
  next hop, the address forwarding in \<^verbatim>\<open>handleData\<close> uses for the same destination.
  Otherwise the frame is addressed to the destination itself, where forwarding addresses
  the broadcast address.
\<close>

theorem sendData_next_hop:
  "snd (sendData dest dat len st) =
     [Send (case findRoute st dest of
              Some k \<Rightarrow> MAC_COPY (nextHop (routingTable st ! k))
            | None \<Rightarrow> MAC_COPY dest)
           \<lparr>type = MSG_DATA, srcMac = MAC_COPY (myMac st), dstMac = MAC_COPY dest,
            MeshMessage.hopCount = 0, sequenceNum = sequenceNumber st,
            dataLen = (if len > 200 then 200 else len),
            data = take (unat (if len > 200 then 200 else len)) dat\<rparr>
           (18 + (if len > 200 then 200 else len))] \<and>
   (dstMac msg = MAC_COPY dest \<and> \<not> MAC_EQUAL dest (myMac st) \<and> MeshMessage.hopCount msg < 5 \<longrightarrow>
      (findRoute st dest = Some k \<longrightarrow>
         sent_addrs (snd (sendData dest dat len st)) = [MAC_COPY (nextHop (routingTable st ! k))] \<and>
         sent_addrs (snd (handleData msg st)) = [MAC_COPY (nextHop (routingTable st ! k))]) \<and>
      (findRoute st dest = None \<longrightarrow>
         sent_addrs (snd (sendData dest dat len st)) = [MAC_COPY dest] \<and>
         sent_addrs (snd (handleData msg st)) = [broadcast]))"
proof -
  have a: "snd (sendData dest dat len st) =
     [Send (case findRoute st dest of
              Some k \<Rightarrow> MAC_COPY (nextHop (routingTable st ! k))
            | None \<Rightarrow> MAC_COPY dest)
           \<lparr>type = MSG_DATA, srcMac = MAC_COPY (myMac st), dstMac = MAC_COPY dest,
            MeshMessage.hopCount = 0, sequenceNum = sequenceNumber st,
            dataLen = (if len > 200 then 200 else len),
            data = take (unat (if len > 200 then 200 else len)) dat\<rparr>
           (18 + (if len > 200 then 200 else len))]"
    by (simp add: sendData_def sendUnicast_def Let_def split: option.splits)
  have b: "sent_addrs (snd (handleData msg st)) =
      [case findRoute st dest of
         Some k \<Rightarrow> MAC_COPY (nextHop (routingTable st ! k)) | None \<Rightarrow> broadcast]"
    if "dstMac msg = MAC_COPY dest" "\<not> MAC_EQUAL dest (myMac st)" "MeshMessage.hopCount msg < 5"
    using that
    by (simp add: handleData_def sendUnicast_def sendBroadcast_def Let_def findRoute_MAC_COPY
        MAC_EQUAL_COPY_left split: option.splits)
  from a b show ?thesis by (auto split: option.splits)
qed

theorem sendData_next_hop_witness:
  "dstMac data_B_to_D = MAC_COPY macD \<and> \<not> MAC_EQUAL macD (myMac nodeA_route_D) \<and>
   MeshMessage.hopCount data_B_to_D < 5 \<and> findRoute nodeA_route_D macD = Some 0 \<and>
   sent_addrs (snd (sendData macD [104, 105] 2 nodeA_route_D)) = [macB] \<and>
   sent_addrs (snd (handleData data_B_to_D nodeA_route_D)) = [macB] \<and>
   dstMac data_B_to_C = MAC_COPY macC \<and> \<not> MAC_EQUAL macC (myMac nodeA) \<and>
   MeshMessage.hopCount data_B_to_C < 5 \<and> findRoute nodeA macC = None \<and>
   sent_addrs (snd (sendData macC [104, 105] 2 nodeA)) = [macC] \<and>
   sent_addrs (snd (handleData data_B_to_C nodeA)) = [broadcast]"
proof -
  have f: "dstMac data_B_to_D = MAC_COPY macD" "\<not> MAC_EQUAL macD (myMac nodeA_route_D)"
    "MeshMessage.hopCount data_B_to_D < 5"
    "dstMac data_B_to_C = MAC_COPY macC" "\<not> MAC_EQUAL macC (myMac nodeA)"
    "MeshMessage.hopCount data_B_to_C < 5"
    by (simp_all add: data_B_to_D_def data_B_to_C_def nodeA_route_D_def consts_defs example_defs)
  have n: "MAC_COPY (nextHop (routingTable nodeA_route_D ! 0)) = macB" "MAC_COPY macC = macC"
    by (simp_all add: nodeA_route_D_def consts_defs example_defs)
  from sendData_next_hop [of macD "[104, 105]" 2 nodeA_route_D data_B_to_D 0]
    sendData_next_hop [of macC "[104, 105]" 2 nodeA data_B_to_C 0]
    f n nodeA_route_D_find nodeA_no_route [of macC]
  show ?thesis by simp
qed

text \<open>
  C2 as stated (broadcast when no route is known) fails: node A, with an empty routing
  table, sends data for node C to the address of C, not to the broadcast address, while it
  forwards a frame for C to the broadcast address.
\<close>

theorem sendData_broadcast_counterexample:
  "findRoute nodeA macC = None \<and>
   sent_addrs (snd (sendData macC [104, 105] 2 nodeA)) = [macC] \<and> macC \<noteq> broadcast \<and>
   dstMac data_B_to_C = macC \<and>
   sent_addrs (snd (processMessage 5 data_B_to_C nodeA)) = [broadcast]"
  by (simp add: data_B_to_C_def consts_defs engine_defs example_defs)

subsection \<open>The periodic heartbeat\<close>

lemma three_peers_bounded: "bounded three_peers"
  by (simp add: bounded_def three_peers_def nodeA_def boot_state_def MAX_PEERS_def)

lemma three_peers_live:
  "live_peers three_peers = [peer_at macB 0 False, peer_at macC 1 False, peer_at macD 500 True]"
  by (simp add: live_peers_def three_peers_def)

text \<open>
  C7 (amended). For every time \<open>now\<close>, \<^verbatim>\<open>meshLoop\<close> hands the link driver a frame if and
  only if \<open>now - lastHeartbeat\<close> (the unsigned 32-bit difference) is strictly greater than
  \<^verbatim>\<open>HEARTBEAT_INTERVAL\<close>. In that case it broadcasts one HEARTBEAT whose payload is the peer
  count before eviction and the gateway flag, sets \<^verbatim>\<open>lastHeartbeat\<close> to \<open>now\<close> and evicts
  the stale peers. Otherwise, and so when the elapsed time equals the interval exactly, it
  sends nothing and leaves the state as it was.
\<close>

theorem meshLoop_heartbeat:
  "(snd (meshLoop now st) \<noteq> []) = (now - lastHeartbeat st > HEARTBEAT_INTERVAL) \<and>
   (now - lastHeartbeat st > HEARTBEAT_INTERVAL \<longrightarrow>
      snd (meshLoop now st) =
        [Send broadcast
           \<lparr>type = MSG_HEARTBEAT, srcMac = MAC_COPY (myMac st), dstMac = replicate 6 255,
            MeshMessage.hopCount = 0, sequenceNum = sequenceNumber st, dataLen = 2,
            data = [word_of_int (peerCount st), if mesh_state.isGateway st then 1 else 0]\<rparr>
           20] \<and>
      fst (meshLoop now st) =
        removeStalePeers now (st\<lparr>sequenceNumber := sequenceNumber st + 1, lastHeartbeat := now\<rparr>) \<and>
      lastHeartbeat (fst (meshLoop now st)) = now \<and>
      (bounded st \<longrightarrow> live_peers (fst (meshLoop now st)) = filter (fresh now) (live_peers st))) \<and>
   (\<not> now - lastHeartbeat st > HEARTBEAT_INTERVAL \<longrightarrow> meshLoop now st = (st, []))"
proof -
  let ?s = "st\<lparr>sequenceNumber := sequenceNumber st + 1, lastHeartbeat := now\<rparr>"
  have live: "live_peers (removeStalePeers now ?s) = filter (fresh now) (live_peers st)"
    if "bounded st"
  proof -
    from that have "0 \<le> peerCount ?s" "peerCount ?s \<le> int (length (peers ?s))"
      by (simp_all add: bounded_def)
    from removeStalePeers_live(1) [OF this, of now] show ?thesis
      by (simp add: live_peers_def)
  qed
  have hb: "lastHeartbeat (removeStalePeers now ?s) = now"
    by (simp add: removeStalePeers_other)
  from live hb show ?thesis
    by (simp add: meshLoop_def sendHeartbeat_def sendBroadcast_def Let_def)
qed

theorem meshLoop_heartbeat_witness:
  "120000 - lastHeartbeat three_peers > HEARTBEAT_INTERVAL \<and> bounded three_peers \<and>
   snd (meshLoop 120000 three_peers) =
     [Send broadcast
        \<lparr>type = MSG_HEARTBEAT, srcMac = macA, dstMac = replicate 6 255,
         MeshMessage.hopCount = 0, sequenceNum = 0, dataLen = 2, data = [3, 0]\<rparr> 20] \<and>
   lastHeartbeat (fst (meshLoop 120000 three_peers)) = 120000 \<and>
   live_peers (fst (meshLoop 120000 three_peers)) = [peer_at macC 1 False, peer_at macD 500 True] \<and>
   \<not> 30000 - lastHeartbeat three_peers > HEARTBEAT_INTERVAL \<and>
   meshLoop 30000 three_peers = (three_peers, [])"
proof -
  have f: "120000 - lastHeartbeat three_peers > HEARTBEAT_INTERVAL"
    "\<not> 30000 - lastHeartbeat three_peers > HEARTBEAT_INTERVAL"
    "MAC_COPY (myMac three_peers) = macA" "sequenceNumber three_peers = 0"
    "peerCount three_peers = 3" "\<not> mesh_state.isGateway three_peers"
    by (simp_all add: three_peers_def consts_defs example_defs)
  have l: "filter (fresh 120000) (live_peers three_peers) =
      [peer_at macC 1 False, peer_at macD 500 True]"
    by (simp add: three_peers_live fresh_def peer_at_def PEER_TIMEOUT_def)
  note hi = meshLoop_heartbeat [of 120000 three_peers]
  note lo = meshLoop_heartbeat [of 30000 three_peers]
  from hi f(1) have sent: "snd (meshLoop 120000 three_peers) =
      [Send broadcast
         \<lparr>type = MSG_HEARTBEAT, srcMac = MAC_COPY (myMac three_peers), dstMac = replicate 6 255,
          MeshMessage.hopCount = 0, sequenceNum = sequenceNumber three_peers, dataLen = 2,
          data = [word_of_int (peerCount three_peers),
                  if mesh_state.isGateway three_peers then 1 else 0]\<rparr> 20]"
    by blast
  from hi f(1) have hb: "lastHeartbeat (fst (meshLoop 120000 three_peers)) = 120000"
    by blast
  from hi f(1) three_peers_bounded
  have "live_peers (fst (meshLoop 120000 three_peers)) = filter (fresh 120000) (live_peers three_peers)"
    by blast
  with l have live: "live_peers (fst (meshLoop 120000 three_peers)) =
      [peer_at macC 1 False, peer_at macD 500 True]"
    by simp
  from lo f(2) have idle: "meshLoop 30000 three_peers = (three_peers, [])"
    by blast
  from sent f(3-6) have sent': "snd (meshLoop 120000 three_peers) =
     [Send broadcast
        \<lparr>type = MSG_HEARTBEAT, srcMac = macA, dstMac = replicate 6 255,
         MeshMessage.hopCount = 0, sequenceNum = 0, dataLen = 2, data = [3, 0]\<rparr> 20]"
    by simp
  from f(1,2) three_peers_bounded sent' hb live idle show ?thesis
    by blast
qed

text \<open>
  C7 as stated (a heartbeat when the elapsed time equals the interval) fails: 30000 ms after
  the last heartbeat \<^verbatim>\<open>meshLoop\<close> sends nothing and changes nothing.
\<close>

theorem heartbeat_at_interval_counterexample:
  "lastHeartbeat three_peers = 0 \<and> 30000 - lastHeartbeat three_peers = HEARTBEAT_INTERVAL \<and>
   meshLoop 30000 three_peers = (three_peers, [])"
  by (simp add: meshLoop_def three_peers_def nodeA_def boot_state_def HEARTBEAT_INTERVAL_def)

subsection \<open>The peer update of a received frame\<close>

lemma processMessage_peers:
  "\<not> MAC_EQUAL (srcMac msg) (myMac st) \<Longrightarrow>
   peers (fst (processMessage now msg st)) = peers (peer_update now msg st) \<and>
   peerCount (fst (processMessage now msg st)) = peerCount (peer_update now msg st)"
  by (simp add: processMessage_steps dispatch_other)

text \<open>
  C3 (amended). For every received frame from another node, in a state within the table
  bounds: when the source already has a peer entry, the peer update sets that entry's
  \<^verbatim>\<open>lastSeen\<close> to the current time and its \<^verbatim>\<open>hopCount\<close> to the frame's hop count and
  leaves its \<^verbatim>\<open>isGateway\<close> (and every other field, and every other entry) as it was, for
  every frame type, DISCOVERY included; \<^verbatim>\<open>data[0]\<close> is not consulted. \<^verbatim>\<open>data[0]\<close> is the
  gateway hint only when an entry is inserted: a DISCOVERY frame from a new source, with
  room in the table, appends an entry whose \<^verbatim>\<open>isGateway\<close> is \<^verbatim>\<open>data[0] == 1\<close>.
\<close>

theorem peer_update_gateway_hint:
  assumes "bounded st" and "\<not> MAC_EQUAL (srcMac msg) (myMac st)"
  shows "(0 \<le> findPeer st (srcMac msg) \<longrightarrow>
            peerCount (fst (processMessage now msg st)) = peerCount st \<and>
            peers (fst (processMessage now msg st)) =
              (peers st)[nat (findPeer st (srcMac msg)) :=
                 (peers st ! nat (findPeer st (srcMac msg)))\<lparr>lastSeen := now,
                    MeshPeer.hopCount := MeshMessage.hopCount msg\<rparr>] \<and>
            lastSeen (peers (fst (processMessage now msg st)) ! nat (findPeer st (srcMac msg)))
              = now \<and>
            MeshPeer.hopCount (peers (fst (processMessage now msg st)) ! nat (findPeer st (srcMac msg)))
              = MeshMessage.hopCount msg \<and>
            MeshPeer.isGateway (peers (fst (processMessage now msg st)) ! nat (findPeer st (srcMac msg)))
              = MeshPeer.isGateway (peers st ! nat (findPeer st (srcMac msg)))) \<and>
         (findPeer st (srcMac msg) < 0 \<and> peerCount st < MAX_PEERS \<and> type msg = MSG_DISCOVERY \<longrightarrow>
            live_peers (fst (processMessage now msg st)) =
              live_peers st @
                [\<lparr>mac = MAC_COPY (srcMac msg), rssi = - 50, lastSeen = now,
                  MeshPeer.hopCount = MeshMessage.hopCount msg, isGateway = (data msg ! 0 = 1),
                  isActive = True\<rparr>])"
proof -
  note pm = processMessage_peers [OF assms(2), of now]
  have a: "0 \<le> findPeer st (srcMac msg) \<longrightarrow>
            peerCount (fst (processMessage now msg st)) = peerCount st \<and>
            peers (fst (processMessage now msg st)) =
              (peers st)[nat (findPeer st (srcMac msg)) :=
                 (peers st ! nat (findPeer st (srcMac msg)))\<lparr>lastSeen := now,
                    MeshPeer.hopCount := MeshMessage.hopCount msg\<rparr>] \<and>
            lastSeen (peers (fst (processMessage now msg st)) ! nat (findPeer st (srcMac msg)))
              = now \<and>
            MeshPeer.hopCount (peers (fst (processMessage now msg st)) ! nat (findPeer st (srcMac msg)))
              = MeshMessage.hopCount msg \<and>
            MeshPeer.isGateway (peers (fst (processMessage now msg st)) ! nat (findPeer st (srcMac msg)))
              = MeshPeer.isGateway (peers st ! nat (findPeer st (srcMac msg)))"
  proof
    assume f: "0 \<le> findPeer st (srcMac msg)"
    with findPeer_range [of st "srcMac msg"] assms(1)
    have "nat (findPeer st (srcMac msg)) < length (peers st)"
      by (auto simp: bounded_def)
    with f pm show "peerCount (fst (processMessage now msg st)) = peerCount st \<and>
            peers (fst (processMessage now msg st)) =
              (peers st)[nat (findPeer st (srcMac msg)) :=
                 (peers st ! nat (findPeer st (srcMac msg)))\<lparr>lastSeen := now,
                    MeshPeer.hopCount := MeshMessage.hopCount msg\<rparr>] \<and>
            lastSeen (peers (fst (processMessage now msg st)) ! nat (findPeer st (srcMac msg)))
              = now \<and>
            MeshPeer.hopCount (peers (fst (processMessage now msg st)) ! nat (findPeer st (srcMac msg)))
              = MeshMessage.hopCount msg \<and>
            MeshPeer.isGateway (peers (fst (processMessage now msg st)) ! nat (findPeer st (srcMac msg)))
              = MeshPeer.isGateway (peers st ! nat (findPeer st (srcMac msg)))"
      by (simp add: peer_update_def)
  qed
  have b: "findPeer st (srcMac msg) < 0 \<and> peerCount st < MAX_PEERS \<and> type msg = MSG_DISCOVERY \<longrightarrow>
            live_peers (fst (processMessage now msg st)) =
              live_peers st @
                [\<lparr>mac = MAC_COPY (srcMac msg), rssi = - 50, lastSeen = now,
                  MeshPeer.hopCount = MeshMessage.hopCount msg, isGateway = (data msg ! 0 = 1),
                  isActive = True\<rparr>]"
  proof
    assume h: "findPeer st (srcMac msg) < 0 \<and> peerCount st < MAX_PEERS \<and> type msg = MSG_DISCOVERY"
    have "live_peers (fst (processMessage now msg st)) = live_peers (peer_update now msg st)"
      using pm by (simp add: live_peers_def)
    with h addPeer_live [OF assms(1), of now "srcMac msg" "- 50" "MeshMessage.hopCount msg"
        "data msg ! 0 = 1"]
    show "live_peers (fst (processMessage now msg st)) =
              live_peers st @
                [\<lparr>mac = MAC_COPY (srcMac msg), rssi = - 50, lastSeen = now,
                  MeshPeer.hopCount = MeshMessage.hopCount msg, isGateway = (data msg ! 0 = 1),
                  isActive = True\<rparr>]"
      by (simp add: peer_update_def)
  qed
  from a b show ?thesis by blast
qed

lemma nodeA_knows_B_facts:
  "\<not> MAC_EQUAL (srcMac discovery_B_gateway) (myMac nodeA_knows_B)"
  "findPeer nodeA_knows_B (srcMac discovery_B_gateway) = 0"
  "peers nodeA_knows_B ! 0 = peer_at macB 5 False"
  "type discovery_B_gateway = MSG_DISCOVERY"
  "data discovery_B_gateway ! 0 = 1"
  "MeshMessage.hopCount discovery_B_gateway = 1"
  by (simp_all add: nodeA_knows_B_state discovery_B_gateway_def findPeer_def findPeer_loop.simps
      consts_defs example_defs)

lemma nodeA_facts:
  "\<not> MAC_EQUAL (srcMac discovery_B_gateway) (myMac nodeA)"
  "findPeer nodeA (srcMac discovery_B_gateway) = - 1"
  "peerCount nodeA < MAX_PEERS"
  "live_peers nodeA = []"
  "MAC_COPY (srcMac discovery_B_gateway) = macB"
  by (simp_all add: discovery_B_gateway_def findPeer_def findPeer_loop.simps live_peers_def
      consts_defs example_defs)

theorem peer_update_gateway_hint_witness:
  "bounded nodeA_knows_B \<and> \<not> MAC_EQUAL (srcMac discovery_B_gateway) (myMac nodeA_knows_B) \<and>
   0 \<le> findPeer nodeA_knows_B (srcMac discovery_B_gateway) \<and>
   peers nodeA_knows_B ! 0 = peer_at macB 5 False \<and>
   peers (fst (processMessage 9 discovery_B_gateway nodeA_knows_B)) ! 0 =
     (peer_at macB 9 False)\<lparr>MeshPeer.hopCount := 1\<rparr> \<and>
   bounded nodeA \<and> \<not> MAC_EQUAL (srcMac discovery_B_gateway) (myMac nodeA) \<and>
   findPeer nodeA (srcMac discovery_B_gateway) < 0 \<and> peerCount nodeA < MAX_PEERS \<and>
   type discovery_B_gateway = MSG_DISCOVERY \<and>
   live_peers (fst (processMessage 9 discovery_B_gateway nodeA)) =
     [(peer_at macB 9 True)\<lparr>MeshPeer.hopCount := 1\<rparr>]"
proof -
  note k = nodeA_knows_B_facts
  note n = nodeA_facts
  have b: "bounded nodeA_knows_B" by (rule reachable_bounded [OF nodeA_knows_B_reachable])
  have len: "0 < length (peers nodeA_knows_B)" using b by (simp add: bounded_def MAX_PEERS_def)
  from peer_update_gateway_hint [OF b k(1), of 9] k(2)
  have "peers (fst (processMessage 9 discovery_B_gateway nodeA_knows_B)) =
      (peers nodeA_knows_B)[0 := (peers nodeA_knows_B ! 0)\<lparr>lastSeen := 9,
         MeshPeer.hopCount := MeshMessage.hopCount discovery_B_gateway\<rparr>]"
    by simp
  with len k(3,6)
  have one: "peers (fst (processMessage 9 discovery_B_gateway nodeA_knows_B)) ! 0 =
     (peer_at macB 9 False)\<lparr>MeshPeer.hopCount := 1\<rparr>"
    by (simp add: peer_at_def)
  from peer_update_gateway_hint [OF nodeA_bounded n(1), of 9] n(2,3,4,5) k(4,5,6)
  have two: "live_peers (fst (processMessage 9 discovery_B_gateway nodeA)) =
     [(peer_at macB 9 True)\<lparr>MeshPeer.hopCount := 1\<rparr>]"
    by (simp add: peer_at_def)
  from b k n one two nodeA_bounded show ?thesis by simp
qed

text \<open>
  C3 as stated (an existing entry's gateway flag is updated from the hint) fails: node A
  knows node B as no gateway; a DISCOVERY frame from B with payload byte 1 refreshes
  \<^verbatim>\<open>lastSeen\<close> and leaves the entry's gateway flag false.
\<close>

theorem gateway_hint_counterexample:
  "findPeer nodeA_knows_B (srcMac discovery_B_gateway) = 0 \<and>
   type discovery_B_gateway = MSG_DISCOVERY \<and> data discovery_B_gateway ! 0 = 1 \<and>
   \<not> MeshPeer.isGateway (peers nodeA_knows_B ! 0) \<and>
   \<not> MeshPeer.isGateway (peers (fst (processMessage 9 discovery_B_gateway nodeA_knows_B)) ! 0) \<and>
   lastSeen (peers (fst (processMessage 9 discovery_B_gateway nodeA_knows_B)) ! 0) = 9"
  by (simp add: nodeA_knows_B_state discovery_B_gateway_def consts_defs engine_defs example_defs)

subsection \<open>Reception\<close>

text \<open>
  C4 (amended). For every received buffer, \<^verbatim>\<open>onDataRecv\<close> drops, without processing and
  with no change of state, any buffer shorter than the 18-byte header. A buffer of 18 to
  218 bytes is handed to \<open>processMessage\<close> whatever its length field declares: the frame is
  the buffer laid over the 218 bytes of the local struct. A longer buffer overruns the
  struct.
\<close>

theorem onDataRecv_header_check:
  "(length buf < 18 \<longrightarrow> onDataRecv stack now buf st = Some (st, [])) \<and>
   (18 \<le> length buf \<and> length buf \<le> 218 \<longrightarrow>
      onDataRecv stack now buf st =
        Some (processMessage now (msg_of_bytes (buf @ drop (length buf) stack)) st)) \<and>
   (218 < length buf \<longrightarrow> onDataRecv stack now buf st = None)"
  by (simp add: onDataRecv_def)

lemma short_heartbeat_msg:
  "msg_of_bytes (short_heartbeat @ drop (length short_heartbeat) (replicate 218 0)) =
     \<lparr>type = MSG_HEARTBEAT, srcMac = macB, dstMac = broadcast, MeshMessage.hopCount = 0,
      sequenceNum = 7, dataLen = 200, data = replicate 200 0\<rparr>"
  by (simp add: short_heartbeat_def msg_of_bytes_def u16_le_def consts_defs example_defs)

lemma short_heartbeat_msg_padded:
  "msg_of_bytes (short_heartbeat @ replicate 200 0) =
     \<lparr>type = MSG_HEARTBEAT, srcMac = macB, dstMac = broadcast, MeshMessage.hopCount = 0,
      sequenceNum = 7, dataLen = 200, data = replicate 200 0\<rparr>"
  by (simp add: short_heartbeat_def msg_of_bytes_def u16_le_def consts_defs example_defs)

theorem onDataRecv_header_check_witness:
  "length (take 17 short_heartbeat) < 18 \<and>
   onDataRecv (replicate 218 0) 5 (take 17 short_heartbeat) nodeA = Some (nodeA, []) \<and>
   18 \<le> length short_heartbeat \<and> length short_heartbeat \<le> 218 \<and>
   onDataRecv (replicate 218 0) 5 short_heartbeat nodeA =
     Some (processMessage 5
       \<lparr>type = MSG_HEARTBEAT, srcMac = macB, dstMac = broadcast, MeshMessage.hopCount = 0,
        sequenceNum = 7, dataLen = 200, data = replicate 200 0\<rparr> nodeA) \<and>
   218 < length (replicate 219 (0 :: u8)) \<and>
   onDataRecv (replicate 218 0) 5 (replicate 219 0) nodeA = None"
proof -
  have l: "length (take 17 short_heartbeat) < 18" "18 \<le> length short_heartbeat"
    "length short_heartbeat \<le> 218" "218 < length (replicate 219 (0 :: u8))"
    by (simp_all add: short_heartbeat_def macB_def broadcast_def)
  from onDataRecv_header_check [of "take 17 short_heartbeat" "replicate 218 0" 5 nodeA]
    onDataRecv_header_check [of short_heartbeat "replicate 218 0" 5 nodeA]
    onDataRecv_header_check [of "replicate 219 0" "replicate 218 0" 5 nodeA]
    l short_heartbeat_msg
  show ?thesis by simp
qed

text \<open>
  C4 as stated (a declared length beyond the bytes received is rejected) fails: a buffer of
  exactly 18 bytes whose length field declares 200 payload bytes is processed, and node A
  enters its sender in the peer table.
\<close>

theorem declared_length_counterexample:
  "length short_heartbeat = 18 \<and>
   dataLen (msg_of_bytes (short_heartbeat @ drop (length short_heartbeat) (replicate 218 0))) = 200 \<and>
   length short_heartbeat - 18 = 0 \<and> peerCount nodeA = 0 \<and>
   onDataRecv (replicate 218 0) 5 short_heartbeat nodeA =
     Some (nodeA\<lparr>peers := (replicate 20 zero_peer)[0 := peer_at macB 5 False], peerCount := 1\<rparr>, [])"
proof -
  have "processMessage 5
       \<lparr>type = MSG_HEARTBEAT, srcMac = macB, dstMac = broadcast, MeshMessage.hopCount = 0,
        sequenceNum = 7, dataLen = 200, data = replicate 200 0\<rparr> nodeA =
     (nodeA\<lparr>peers := (replicate 20 zero_peer)[0 := peer_at macB 5 False], peerCount := 1\<rparr>, [])"
    by (simp add: consts_defs engine_defs example_defs)
  moreover have "length short_heartbeat = 18" "peerCount nodeA = 0"
    by (simp_all add: short_heartbeat_def consts_defs example_defs)
  ultimately show ?thesis
    by (simp add: onDataRecv_def short_heartbeat_msg_padded)
qed

end
